theory Spec2Isabelle
  imports Main "HOL-Library.Word"
begin

section \<open>The GreenTouch touch-foil driver (usbskeleton.c)\<close>

text \<open>
  A shallow embedding of the parts of \<^verbatim>\<open>src/usb_skel/usbskeleton.c\<close> that
  decide the properties below: the transfer-completion callbacks, the error hand-over
  of \<^verbatim>\<open>skel_read\<close>, \<^verbatim>\<open>skel_write\<close> and \<^verbatim>\<open>skel_flush\<close>, the per-cell
  calibration and detection pass \<^verbatim>\<open>normalize\<close>, and the poll tick
  \<^verbatim>\<open>skel_poll\<close>.

  \<^item> \<^verbatim>\<open>unsigned short\<close> is \<open>16 word\<close>, \<^verbatim>\<open>unsigned char\<close> is \<open>8 word\<close>;
    arithmetic that C performs after promotion to \<^verbatim>\<open>int\<close> is written on \<open>nat\<close>
    or \<open>int\<close> and narrowed where C stores the result.
  \<^item> \<^verbatim>\<open>int\<close> variables (loop counters, \<^verbatim>\<open>frame_index\<close>, contact fields,
    error codes) are \<open>int\<close>; none of them leaves the 32-bit range on the paths
    modelled (cell coordinates are below 64 and \<^verbatim>\<open>frame_index\<close> is reset above 7000).
  \<^item> The buffers that \<^verbatim>\<open>skel_probe\<close> allocates are lists; a store whose index is
    outside the declared array is undefined behaviour in C. The model leaves the
    declared arrays unchanged at such a store and appends it to a list of faults, so
    that memory safety of the stores is the statement that this list stays empty.
  \<^item> What the kernel and the device decide (whether a lock or a semaphore is
    obtained, the status a transfer completes with, the bytes a fetch delivers) is a
    parameter of the function that asks for it.
\<close>

type_synonym u8 = "8 word"
type_synonym u16 = "16 word"

subsection \<open>Constants\<close>

definition MAX_CONTACTS :: int where "MAX_CONTACTS = 10"
definition SIGMA_THRESHOLD :: u16 where "SIGMA_THRESHOLD = 275"
definition SIGMA_COMPUTE_FRAME :: int where "SIGMA_COMPUTE_FRAME = 255"
definition AVERAGE_COMPUTE_FRAME :: int where "AVERAGE_COMPUTE_FRAME = 255"
definition CALIBRATE_EVERY :: int where "CALIBRATE_EVERY = 7000"
definition BLOB_LINE_OFFSET :: int where "BLOB_LINE_OFFSET = 0"

text \<open>
  Modelled from the spec: the error numbers. The source takes them from the kernel's
  \<^verbatim>\<open>errno.h\<close>, which is not part of the repository; the spec names them (device
  absent, would block, interrupted, transport reset, generic I/O, out of memory, bad
  address, and the three statuses of a cancelled transfer). The values are those of
  Linux; the properties below use only that they are positive and distinct.
\<close>

definition ENOENT :: int where "ENOENT = 2"
definition EIO :: int where "EIO = 5"
definition EAGAIN :: int where "EAGAIN = 11"
definition ENOMEM :: int where "ENOMEM = 12"
definition EFAULT :: int where "EFAULT = 14"
definition ENODEV :: int where "ENODEV = 19"
definition EPIPE :: int where "EPIPE = 32"
definition ECONNRESET :: int where "ECONNRESET = 104"
definition ESHUTDOWN :: int where "ESHUTDOWN = 108"
definition ERESTARTSYS :: int where "ERESTARTSYS = 512"

text \<open>
  Modelled from the spec: the page size, which the kernel defines (the spec's transfer unit is
  one memory page minus 512 bytes). \<^verbatim>\<open>MAX_TRANSFER\<close> is \<^verbatim>\<open>PAGE_SIZE - 512\<close>.
\<close>

definition PAGE_SIZE :: nat where "PAGE_SIZE = 4096"
definition MAX_TRANSFER :: nat where "MAX_TRANSFER = PAGE_SIZE - 512"

lemmas errno_defs = ENOENT_def EIO_def EAGAIN_def ENOMEM_def EFAULT_def ENODEV_def
  EPIPE_def ECONNRESET_def ESHUTDOWN_def ERESTARTSYS_def

lemmas calib_defs = MAX_CONTACTS_def SIGMA_THRESHOLD_def SIGMA_COMPUTE_FRAME_def
  AVERAGE_COMPUTE_FRAME_def CALIBRATE_EVERY_def BLOB_LINE_OFFSET_def

subsection \<open>Data\<close>

text \<open>\<^verbatim>\<open>struct touch_contact\<close>.\<close>

record touch_contact =
  x :: int
  y :: int
  h :: int
  w :: int
  processed :: bool

text \<open>
  The arrays that \<^verbatim>\<open>normalize\<close> receives by pointer: five buffers of 4160
  \<^verbatim>\<open>unsigned short\<close> each (\<^verbatim>\<open>kzalloc(buffer_size*2)\<close> with
  \<^verbatim>\<open>buffer_size = 4160\<close>) and \<^verbatim>\<open>touch_contacts[MAX_CONTACTS]\<close>.
\<close>

record frame_buffers =
  score_frame :: "u16 list"
  score_frame_adjacent :: "u16 list"
  score_last_frame_adjacent :: "u16 list"
  sigma_frame :: "u16 list"
  average_frame :: "u16 list"
  touch_contacts :: "touch_contact list"

text \<open>A store outside a declared array, or a division by a zero sigma.\<close>

datatype fault =
  Adjacent_store_out_of_bounds int
  | Contact_store_out_of_bounds int
  | Division_by_zero int

text \<open>
  The memory \<^verbatim>\<open>normalize\<close> works on, its local \<^verbatim>\<open>contact_index\<close>, and the
  faults met so far.
\<close>

record normalize_state = frame_buffers +
  contact_index :: int
  faults :: "fault list"

text \<open>
  \<^verbatim>\<open>struct usb_skel\<close>, without the kernel objects (locks, wait queue, anchor,
  reference count). \<open>interface_bound\<close> and \<open>bulk_in_urb_bound\<close> say that the
  pointers \<^verbatim>\<open>interface\<close> and \<^verbatim>\<open>bulk_in_urb\<close> are not NULL.
\<close>

record usb_skel = frame_buffers +
  bulk_in_buffer :: "u8 list"
  sigma_normalized :: bool
  average_computed :: bool
  frame_index :: int
  bulk_in_size :: nat
  bulk_in_filled :: nat
  bulk_in_copied :: nat
  errors :: int
  ongoing_read :: bool
  interface_bound :: bool
  bulk_in_urb_bound :: bool

subsection \<open>Transfer completions\<close>

text \<open>
  \<^verbatim>\<open>skel_read_bulk_callback\<close> and \<^verbatim>\<open>skel_write_bulk_callback\<close>, on the
  status and the length the transfer completed with. The second component says whether
  \<^verbatim>\<open>dev_err\<close> logged the status.
\<close>

definition unlink_status :: "int \<Rightarrow> bool" where
  "unlink_status status =
     (status = - ENOENT \<or> status = - ECONNRESET \<or> status = - ESHUTDOWN)"

definition skel_read_bulk_callback :: "int \<Rightarrow> nat \<Rightarrow> usb_skel \<Rightarrow> usb_skel \<times> bool" where
  "skel_read_bulk_callback status actual_length dev =
     (if status \<noteq> 0
      then (dev\<lparr>errors := status, ongoing_read := False\<rparr>, \<not> unlink_status status)
      else (dev\<lparr>bulk_in_filled := actual_length, ongoing_read := False\<rparr>, False))"

definition skel_write_bulk_callback :: "int \<Rightarrow> usb_skel \<Rightarrow> usb_skel \<times> bool" where
  "skel_write_bulk_callback status dev =
     (if status \<noteq> 0
      then (dev\<lparr>errors := status\<rparr>, \<not> unlink_status status)
      else (dev, False))"

subsection \<open>Reading, writing and flushing\<close>

text \<open>
  \<^verbatim>\<open>skel_do_read_io\<close>, on the value \<^verbatim>\<open>usb_submit_urb\<close> returns. The byte count
  only sizes the transfer, which the device answers.
\<close>

definition skel_do_read_io :: "int \<Rightarrow> usb_skel \<Rightarrow> int \<times> usb_skel" where
  "skel_do_read_io submit_rv dev =
     (let dev1 = dev\<lparr>ongoing_read := True, bulk_in_filled := 0, bulk_in_copied := 0\<rparr>
      in if submit_rv < 0
         then (if submit_rv = - ENOMEM then submit_rv else - EIO, dev1\<lparr>ongoing_read := False\<rparr>)
         else (submit_rv, dev1))"

text \<open>
  What a blocked reader meets in \<^verbatim>\<open>wait_event_interruptible\<close>: a signal, or the
  completion of the outstanding transfer.
\<close>

datatype read_event = Interrupted | Completed int nat

text \<open>
  \<^verbatim>\<open>skel_read\<close> from the label \<^verbatim>\<open>retry\<close> on. \<open>evs\<close> are the events of the
  waits and \<open>subs\<close> the results of the submissions, in order; the result is \<open>None\<close>
  when the call needs one more of them than the lists hold, that is, when it has not
  returned by then. Every jump back to \<^verbatim>\<open>retry\<close> follows a submission, so the
  recursion is on \<open>subs\<close>. The sizes (\<^verbatim>\<open>size_t\<close>) are \<open>nat\<close>:
  \<^verbatim>\<open>bulk_in_copied\<close> grows by at most what is available and is reset together with
  \<^verbatim>\<open>bulk_in_filled\<close>, so the difference of the two does not wrap, and the chunk
  returned is at most the 4160 bytes of the buffer.
\<close>

fun skel_read_retry ::
  "bool \<Rightarrow> nat \<Rightarrow> bool \<Rightarrow> read_event list \<Rightarrow> int list \<Rightarrow> usb_skel \<Rightarrow> (int \<times> usb_skel) option"
where
  "skel_read_retry nonblock count copy_fault evs subs dev =
     (if ongoing_read dev \<and> nonblock then Some (- EAGAIN, dev)
      else if ongoing_read dev \<and> evs = [] then None
      else if ongoing_read dev \<and> hd evs = Interrupted then Some (- ERESTARTSYS, dev)
      else
        let dev1 = (if ongoing_read dev
                    then (case hd evs of
                            Completed status len \<Rightarrow> fst (skel_read_bulk_callback status len dev)
                          | Interrupted \<Rightarrow> dev)
                    else dev);
            evs1 = (if ongoing_read dev then tl evs else evs)
        in if errors dev1 < 0
           then Some (if errors dev1 = - EPIPE then errors dev1 else - EIO, dev1\<lparr>errors := 0\<rparr>)
           else if bulk_in_filled dev1 \<noteq> 0 \<and> bulk_in_filled dev1 - bulk_in_copied dev1 \<noteq> 0
           then
             let available = bulk_in_filled dev1 - bulk_in_copied dev1;
                 chunk = min available count;
                 rv = (if copy_fault then - EFAULT else int chunk);
                 dev2 = dev1\<lparr>bulk_in_copied := bulk_in_copied dev1 + chunk\<rparr>
             in if available < count
                then (case subs of
                        [] \<Rightarrow> None
                      | r # subs1 \<Rightarrow> Some (rv, snd (skel_do_read_io r dev2)))
                else Some (rv, dev2)
           else
             (case subs of
                [] \<Rightarrow> None
              | r # subs1 \<Rightarrow>
                  if fst (skel_do_read_io r dev1) < 0 then Some (skel_do_read_io r dev1)
                  else skel_read_retry nonblock count copy_fault evs1 subs1
                         (snd (skel_do_read_io r dev1))))"

declare skel_read_retry.simps [simp del]

text \<open>
  \<^verbatim>\<open>skel_read\<close>. \<open>lock_rv\<close> is what \<^verbatim>\<open>mutex_lock_interruptible\<close> returns.
\<close>

definition skel_read ::
  "bool \<Rightarrow> nat \<Rightarrow> int \<Rightarrow> bool \<Rightarrow> read_event list \<Rightarrow> int list \<Rightarrow> usb_skel \<Rightarrow> (int \<times> usb_skel) option"
where
  "skel_read nonblock count lock_rv copy_fault evs subs dev =
     (if \<not> bulk_in_urb_bound dev \<or> count = 0 then Some (0, dev)
      else if lock_rv < 0 then Some (lock_rv, dev)
      else if \<not> interface_bound dev then Some (- ENODEV, dev)
      else skel_read_retry nonblock count copy_fault evs subs dev)"

text \<open>
  \<^verbatim>\<open>skel_write\<close>. The environment says whether a slot of \<^verbatim>\<open>limit_sem\<close> was
  obtained, whether the two allocations and the copy from user space succeeded, and what
  \<^verbatim>\<open>usb_submit_urb\<close> returned.
\<close>

record write_env =
  sem_acquired :: bool
  urb_allocated :: bool
  buf_allocated :: bool
  copy_ok :: bool
  submit_rv :: int

definition skel_write :: "bool \<Rightarrow> nat \<Rightarrow> write_env \<Rightarrow> usb_skel \<Rightarrow> int \<times> usb_skel" where
  "skel_write nonblock count env dev =
     (let writesize = min count MAX_TRANSFER
      in if count = 0 then (0, dev)
         else if \<not> sem_acquired env then (if nonblock then - EAGAIN else - ERESTARTSYS, dev)
         else
           let retval = errors dev;
               dev1 = (if retval < 0 then dev\<lparr>errors := 0\<rparr> else dev);
               retval1 = (if retval < 0 then (if retval = - EPIPE then retval else - EIO) else retval)
           in if retval1 < 0 then (retval1, dev1)
              else if \<not> urb_allocated env then (- ENOMEM, dev1)
              else if \<not> buf_allocated env then (- ENOMEM, dev1)
              else if \<not> copy_ok env then (- EFAULT, dev1)
              else if \<not> interface_bound dev1 then (- ENODEV, dev1)
              else if submit_rv env \<noteq> 0 then (submit_rv env, dev1)
              else (int writesize, dev1))"

text \<open>
  \<^verbatim>\<open>skel_draw_down\<close> waits for the submitted transfers and kills the rest; the
  transfers complete meanwhile, each through its callback.
\<close>

datatype completion = Read_completion int nat | Write_completion int

fun complete :: "completion \<Rightarrow> usb_skel \<Rightarrow> usb_skel" where
  "complete (Read_completion status len) dev = fst (skel_read_bulk_callback status len dev)"
| "complete (Write_completion status) dev = fst (skel_write_bulk_callback status dev)"

definition skel_draw_down :: "completion list \<Rightarrow> usb_skel \<Rightarrow> usb_skel" where
  "skel_draw_down cs dev = fold complete cs dev"

text \<open>\<^verbatim>\<open>skel_flush\<close>; \<open>None\<close> is a file without private data.\<close>

fun skel_flush :: "completion list \<Rightarrow> usb_skel option \<Rightarrow> int \<times> usb_skel option" where
  "skel_flush cs None = (- ENODEV, None)"
| "skel_flush cs (Some dev) =
     (let dev1 = skel_draw_down cs dev;
          res = (if errors dev1 \<noteq> 0 then (if errors dev1 = - EPIPE then - EPIPE else - EIO) else 0)
      in (res, Some (dev1\<lparr>errors := 0\<rparr>)))"

subsection \<open>Calibration and detection: \<^verbatim>\<open>normalize\<close>\<close>

text \<open>
  The linear index of the cell in row \<open>i\<close> and column \<open>j\<close>. Both operands of
  \<^verbatim>\<open>%\<close> are non-negative, so C's remainder is \<open>mod\<close>.
\<close>

definition cell_index :: "int \<Rightarrow> int \<Rightarrow> int" where
  "cell_index i j = (j + i * 64 + 64 + 64 * BLOB_LINE_OFFSET) mod 4096"

text \<open>
  \<^verbatim>\<open>score_frame_adjacent[dst] += score\<close>: the sum is narrowed to 16 bits. A
  destination outside the buffer is recorded as a fault.
\<close>

definition adjacent_add :: "int \<Rightarrow> u16 \<Rightarrow> normalize_state \<Rightarrow> normalize_state" where
  "adjacent_add dst score s =
     (if 0 \<le> dst \<and> nat dst < length (score_frame_adjacent s)
      then s\<lparr>score_frame_adjacent :=
               (score_frame_adjacent s)[nat dst := score_frame_adjacent s ! nat dst + score]\<rparr>
      else s\<lparr>faults := faults s @ [Adjacent_store_out_of_bounds dst]\<rparr>)"

text \<open>
  The body of the two loops over \<open>k\<close> and \<open>l\<close> (each from -2 to 0): the score of the
  cell \<open>(k+i, l+j)\<close>, read at its index without the remainder, is added to the slot
  \<open>index - 65\<close>.
\<close>

definition adjacent_step :: "int \<Rightarrow> int \<Rightarrow> int \<Rightarrow> int \<Rightarrow> int \<Rightarrow> normalize_state \<Rightarrow> normalize_state" where
  "adjacent_step i j index k l s =
     (if l + j > 0 \<and> k + i > 0
      then let adj_index = (l + j) + (k + i) * 64 + 64 + 64 * BLOB_LINE_OFFSET;
               score = score_frame s ! nat adj_index
           in adjacent_add (index - 65) score s
      else s)"

definition adjacent_sum :: "int \<Rightarrow> int \<Rightarrow> int \<Rightarrow> normalize_state \<Rightarrow> normalize_state" where
  "adjacent_sum i j index s =
     fold (\<lambda>k. fold (\<lambda>l. adjacent_step i j index k l) [- 2, - 1, 0]) [- 2, - 1, 0] s"

text \<open>
  The search of the contacts \<open>0 .. contact_index - 1\<close> for one whose box, widened by 2
  below and 3 above, holds the cell: the first such slot, or -1.
\<close>

definition contact_hit :: "touch_contact \<Rightarrow> int \<Rightarrow> int \<Rightarrow> bool" where
  "contact_hit c i j =
     (j \<ge> x c - 2 \<and> j < x c + w c + 3 \<and> i \<ge> y c - 2 \<and> i < y c + h c + 3)"

function contact_match :: "touch_contact list \<Rightarrow> int \<Rightarrow> int \<Rightarrow> int \<Rightarrow> int \<Rightarrow> int" where
  "contact_match cs n i j m =
     (if m < n
      then (if contact_hit (cs ! nat m) i j then m else contact_match cs n i j (m + 1))
      else - 1)"
  by pat_completeness auto
termination
  by (relation "measure (\<lambda>(cs, n, i, j, m). nat (n - m))") auto

declare contact_match.simps [simp del]

text \<open>
  The store of a new contact: \<^verbatim>\<open>x\<close>, \<^verbatim>\<open>y\<close>, \<^verbatim>\<open>h\<close> and \<^verbatim>\<open>w\<close> of the
  slot are assigned, \<^verbatim>\<open>processed\<close> is left as it is. A slot outside
  \<^verbatim>\<open>touch_contacts[MAX_CONTACTS]\<close> is recorded as a fault.
\<close>

definition contact_store :: "int \<Rightarrow> int \<Rightarrow> int \<Rightarrow> normalize_state \<Rightarrow> normalize_state" where
  "contact_store slot i j s =
     (if 0 \<le> slot \<and> nat slot < length (touch_contacts s)
      then s\<lparr>touch_contacts :=
               (touch_contacts s)[nat slot :=
                  (touch_contacts s ! nat slot)\<lparr>x := j, y := i, h := 1, w := 1\<rparr>]\<rparr>
      else s\<lparr>faults := faults s @ [Contact_store_out_of_bounds slot]\<rparr>)"

text \<open>
  What a triggered cell does to the contacts while \<^verbatim>\<open>contact_index < MAX_CONTACTS\<close>:
  it grows the contact it matches, or else \<^verbatim>\<open>contact_index\<close> is incremented and
  the slot it then names is filled.
\<close>

definition contact_update :: "int \<Rightarrow> int \<Rightarrow> normalize_state \<Rightarrow> normalize_state" where
  "contact_update i j s =
     (let contact_match_index = contact_match (touch_contacts s) (contact_index s) i j 0
      in if contact_match_index > - 1
         then
           let c = touch_contacts s ! nat contact_match_index;
               c1 = (if j - x c + 1 > w c then c\<lparr>w := j - x c + 1\<rparr> else c);
               c2 = (if i - y c1 + 1 > h c1 then c1\<lparr>h := i - y c1 + 1\<rparr> else c1)
           in s\<lparr>touch_contacts := (touch_contacts s)[nat contact_match_index := c2]\<rparr>
         else
           contact_store (contact_index s + 1) i j (s\<lparr>contact_index := contact_index s + 1\<rparr>))"

text \<open>
  \<^verbatim>\<open>memcpy(score_last_frame_adjacent, score_frame_adjacent, 4160*2)\<close>: the first
  4160 elements of the destination are replaced.
\<close>

definition memcpy_u16 :: "u16 list \<Rightarrow> u16 list \<Rightarrow> nat \<Rightarrow> u16 list" where
  "memcpy_u16 dst src n = take n src @ drop n dst"

text \<open>
  The steady-state branch for one cell (\<^verbatim>\<open>sigma_normalized && average_computed\<close>):
  \<open>steady_score\<close> up to the store of \<^verbatim>\<open>score_frame[index]\<close>, \<open>steady_smoothed\<close> up to
  the store of the smoothed score, and \<open>steady_cell\<close> all of it.
  \<open>score_at_threshold\<close> is the value of \<^verbatim>\<open>score\<close> that the threshold test reads.
  The sum \<^verbatim>\<open>score_frame_adjacent[index] + score_last_frame_adjacent[index]\<close> is
  formed in \<^verbatim>\<open>int\<close>, halved, and narrowed on the store. A zero sigma, on which the
  division traps, is recorded as a fault and the score is left as it was.
\<close>

definition steady_score :: "u8 list \<Rightarrow> int \<Rightarrow> normalize_state \<Rightarrow> normalize_state" where
  "steady_score current_frame index s =
     (let current_value = (ucast (current_frame ! nat index) :: u16);
          difference = current_value - average_frame s ! nat index;
          sigma = sigma_frame s ! nat index;
          s1 = s\<lparr>score_frame_adjacent := (score_frame_adjacent s)[nat index := 0]\<rparr>;
          difference1 = (if current_value < average_frame s ! nat index
                         then average_frame s ! nat index - current_value
                         else difference)
      in if sigma = 0
         then s1\<lparr>faults := faults s1 @ [Division_by_zero index]\<rparr>
         else s1\<lparr>score_frame := (score_frame s1)[nat index := difference1 div sigma]\<rparr>)"

definition smooth :: "int \<Rightarrow> normalize_state \<Rightarrow> normalize_state" where
  "smooth index s =
     s\<lparr>score_frame_adjacent :=
         (score_frame_adjacent s)[nat index :=
            word_of_nat ((unat (score_frame_adjacent s ! nat index)
                          + unat (score_last_frame_adjacent s ! nat index)) div 2)]\<rparr>"

definition steady_smoothed :: "u8 list \<Rightarrow> int \<Rightarrow> int \<Rightarrow> normalize_state \<Rightarrow> normalize_state" where
  "steady_smoothed current_frame i j s =
     (let index = cell_index i j
      in smooth index (adjacent_sum i j index (steady_score current_frame index s)))"

definition score_at_threshold :: "u8 list \<Rightarrow> int \<Rightarrow> int \<Rightarrow> normalize_state \<Rightarrow> u16" where
  "score_at_threshold current_frame i j s =
     score_frame_adjacent (steady_smoothed current_frame i j s) ! nat (cell_index i j)"

text \<open>
  The lines under \<^verbatim>\<open>if(contact_index < MAX_CONTACTS)\<close>: nothing happens at the
  cap, nor for a cell that is not triggered.
\<close>

definition contact_pass :: "bool \<Rightarrow> int \<Rightarrow> int \<Rightarrow> normalize_state \<Rightarrow> normalize_state" where
  "contact_pass cell_triggered i j s =
     (if contact_index s < MAX_CONTACTS
      then (if cell_triggered then contact_update i j s else s)
      else s)"

definition steady_cell :: "u8 list \<Rightarrow> int \<Rightarrow> int \<Rightarrow> normalize_state \<Rightarrow> normalize_state" where
  "steady_cell current_frame i j s =
     (let score = score_at_threshold current_frame i j s;
          cell_triggered = \<not> (score \<le> SIGMA_THRESHOLD);
          s5 = contact_pass cell_triggered i j (steady_smoothed current_frame i j s)
      in s5\<lparr>score_last_frame_adjacent :=
              memcpy_u16 (score_last_frame_adjacent s5) (score_frame_adjacent s5) 4160\<rparr>)"

text \<open>
  The body of the loops over \<open>i\<close> and \<open>j\<close>: the chain of branches on the phase, in the
  order of the source.
\<close>

definition normalize_cell ::
  "u8 list \<Rightarrow> int \<Rightarrow> bool \<Rightarrow> bool \<Rightarrow> int \<Rightarrow> int \<Rightarrow> normalize_state \<Rightarrow> normalize_state"
where
  "normalize_cell current_frame frame_index' sigma_normalized' average_computed' i j s =
     (let index = cell_index i j;
          n = nat index
      in if \<not> average_computed' \<and> frame_index' < AVERAGE_COMPUTE_FRAME
         then
           (if frame_index' = 0
            then s\<lparr>average_frame := (average_frame s)[n := ucast (current_frame ! n)]\<rparr>
            else s\<lparr>average_frame :=
                     (average_frame s)[n := average_frame s ! n + ucast (current_frame ! n)]\<rparr>)
         else if \<not> average_computed' \<and> frame_index' = AVERAGE_COMPUTE_FRAME
         then s\<lparr>average_frame :=
                  (average_frame s)[n := average_frame s ! n div word_of_int AVERAGE_COMPUTE_FRAME]\<rparr>
         else if \<not> sigma_normalized' \<and> frame_index' < SIGMA_COMPUTE_FRAME + AVERAGE_COMPUTE_FRAME
         then
           (let current_value = (ucast (current_frame ! n) :: u16);
                difference = (if current_value < average_frame s ! n
                              then average_frame s ! n - current_value
                              else current_value - average_frame s ! n)
            in if frame_index' = AVERAGE_COMPUTE_FRAME + 1
               then s\<lparr>sigma_frame := (sigma_frame s)[n := difference]\<rparr>
               else s\<lparr>sigma_frame := (sigma_frame s)[n := sigma_frame s ! n + difference]\<rparr>)
         else if \<not> sigma_normalized' \<and> frame_index' = SIGMA_COMPUTE_FRAME + AVERAGE_COMPUTE_FRAME
         then
           (let q = sigma_frame s ! n div word_of_int SIGMA_COMPUTE_FRAME
            in s\<lparr>sigma_frame := (sigma_frame s)[n := (if q < 1 then 1 else q)]\<rparr>)
         else if sigma_normalized' \<and> average_computed'
         then steady_cell current_frame i j s
         else s)"

text \<open>
  \<^verbatim>\<open>normalize\<close> (its parameters \<^verbatim>\<open>frame_index\<close>, \<^verbatim>\<open>sigma_normalized\<close>
  and \<^verbatim>\<open>average_computed\<close> carry a prime here, the plain names being the fields
  of the device; the function itself is \<open>normalize_frame\<close> here, \<open>normalize\<close> being a
  constant of the library): \<^verbatim>\<open>contact_index\<close> starts at 0, rows and columns run from 0
  to 63. The function returns 0 on every path.
\<close>

definition normalize_row ::
  "u8 list \<Rightarrow> int \<Rightarrow> bool \<Rightarrow> bool \<Rightarrow> int \<Rightarrow> normalize_state \<Rightarrow> normalize_state"
where
  "normalize_row current_frame frame_index' sigma_normalized' average_computed' i s =
     fold (\<lambda>j. normalize_cell current_frame frame_index' sigma_normalized' average_computed' i j)
       (map int [0..<64]) s"

definition normalize_frame ::
  "u8 list \<Rightarrow> int \<Rightarrow> bool \<Rightarrow> bool \<Rightarrow> normalize_state \<Rightarrow> normalize_state"
where
  "normalize_frame current_frame frame_index' sigma_normalized' average_computed' s =
     fold (normalize_row current_frame frame_index' sigma_normalized' average_computed')
       (map int [0..<64]) (s\<lparr>contact_index := 0\<rparr>)"

subsection \<open>The poll tick: \<^verbatim>\<open>skel_poll\<close>\<close>

text \<open>What the tick hands to the input layer.\<close>

datatype sink_event = Mt_sync_frame | Sync

text \<open>
  \<^verbatim>\<open>skel_poll\<close>. \<open>result\<close> is what \<^verbatim>\<open>usb_bulk_msg\<close> returns and \<open>fetched\<close>
  the content of \<^verbatim>\<open>bulk_in_buffer\<close> after it. The tick gives the device, the events
  sent to the input layer, and the faults of the pass. \<open>normalize_memory\<close> is the
  memory behind the pointers that \<^verbatim>\<open>normalize\<close> is called with.
\<close>

definition normalize_memory :: "usb_skel \<Rightarrow> normalize_state" where
  "normalize_memory dev =
     \<lparr>score_frame = score_frame dev,
      score_frame_adjacent = score_frame_adjacent dev,
      score_last_frame_adjacent = score_last_frame_adjacent dev,
      sigma_frame = sigma_frame dev,
      average_frame = average_frame dev,
      touch_contacts = touch_contacts dev,
      contact_index = 0, faults = []\<rparr>"

definition skel_poll :: "int \<Rightarrow> u8 list \<Rightarrow> usb_skel \<Rightarrow> usb_skel \<times> sink_event list \<times> fault list" where
  "skel_poll result fetched dev0 =
     (let dev = dev0\<lparr>bulk_in_buffer := fetched\<rparr>
      in if result < 0 then (dev, [], [])
         else
           let s = normalize_frame (bulk_in_buffer dev) (frame_index dev) (sigma_normalized dev)
                     (average_computed dev) (normalize_memory dev);
               dev1 = dev\<lparr>score_frame := score_frame s,
                          score_frame_adjacent := score_frame_adjacent s,
                          score_last_frame_adjacent := score_last_frame_adjacent s,
                          sigma_frame := sigma_frame s,
                          average_frame := average_frame s,
                          touch_contacts := touch_contacts s\<rparr>;
               dev2 = (if \<not> sigma_normalized dev1
                          \<and> frame_index dev1 = SIGMA_COMPUTE_FRAME + AVERAGE_COMPUTE_FRAME
                       then dev1\<lparr>sigma_normalized := True\<rparr> else dev1);
               dev3 = (if \<not> average_computed dev2 \<and> frame_index dev2 = AVERAGE_COMPUTE_FRAME
                       then dev2\<lparr>average_computed := True\<rparr> else dev2);
               dev4 = (if frame_index dev3 > CALIBRATE_EVERY
                       then dev3\<lparr>frame_index := 0, average_computed := False,
                                 sigma_normalized := False\<rparr>
                       else dev3)
           in (dev4\<lparr>frame_index := frame_index dev4 + 1\<rparr>, [Mt_sync_frame, Sync], faults s))"

text \<open>
  The device as \<^verbatim>\<open>skel_probe\<close> leaves it: \<^verbatim>\<open>kzalloc\<close> zeroes the structure and
  the buffers, the receive buffer has 4160 bytes, and both end points were found.
\<close>

definition zero_contact :: touch_contact where
  "zero_contact = \<lparr>x = 0, y = 0, h = 0, w = 0, processed = False\<rparr>"

definition skel_probe :: usb_skel where
  "skel_probe =
     \<lparr>score_frame = replicate 4160 0,
      score_frame_adjacent = replicate 4160 0,
      score_last_frame_adjacent = replicate 4160 0,
      sigma_frame = replicate 4160 0,
      average_frame = replicate 4160 0,
      touch_contacts = replicate 10 zero_contact,
      bulk_in_buffer = replicate 4160 0,
      sigma_normalized = False,
      average_computed = False,
      frame_index = 0,
      bulk_in_size = 4160,
      bulk_in_filled = 0,
      bulk_in_copied = 0,
      errors = 0,
      ongoing_read = False,
      interface_bound = True,
      bulk_in_urb_bound = True\<rparr>"

text \<open>A run of poll ticks, each with the result and the bytes of its fetch.\<close>

fun poll_run :: "(int \<times> u8 list) list \<Rightarrow> usb_skel \<Rightarrow> usb_skel \<times> fault list" where
  "poll_run [] dev = (dev, [])"
| "poll_run ((result, fetched) # ticks) dev =
     (case skel_poll result fetched dev of
        (dev1, evs, fs) \<Rightarrow> (case poll_run ticks dev1 of (dev2, fs2) \<Rightarrow> (dev2, fs @ fs2)))"

subsection \<open>The cells of a frame, in the order of the two loops\<close>

definition cells :: "(int \<times> int) list" where
  "cells = List.product (map int [0..<64]) (map int [0..<64])"

definition slot :: "int \<times> int \<Rightarrow> nat" where
  "slot c = nat (cell_index (fst c) (snd c))"

text \<open>The 16-bit sum of the bytes that a list of frames holds at one position.\<close>

definition wsum :: "nat \<Rightarrow> u8 list list \<Rightarrow> u16" where
  "wsum n fs = (\<Sum>f\<leftarrow>fs. ucast (f ! n))"

text \<open>
  A device in steady state whose next tick is the one at \<open>frame_index = 7001\<close>, with
  a baseline of 9 and a sigma of 1 at every cell.
\<close>

definition steady_7001 :: usb_skel where
  "steady_7001 = skel_probe\<lparr>frame_index := 7001, average_computed := True,
      sigma_normalized := True, average_frame := replicate 4160 9, sigma_frame := replicate 4160 1\<rparr>"

text \<open>
  The sum that the loops over \<open>k\<close> and \<open>l\<close> form at the cell \<open>(i, j)\<close>: the scores of
  the three by three block that ends at the cell, without row 0 and column 0.
\<close>

definition neighbourhood_sum :: "u16 list \<Rightarrow> int \<Rightarrow> int \<Rightarrow> u16" where
  "neighbourhood_sum sf i j =
     (\<Sum>k\<leftarrow>[- 2, - 1, 0]. \<Sum>l\<leftarrow>[- 2, - 1, 0].
        if l + j > 0 \<and> k + i > 0
        then sf ! nat ((l + j) + (k + i) * 64 + 64 + 64 * BLOB_LINE_OFFSET) else 0)"

text \<open>
  A memory in steady state, in the middle of a frame of bytes 100 over a baseline of 0
  with sigma 1: the scores of the current frame are 100, the previous adjacent scores 0.
\<close>

definition touched_state :: normalize_state where
  "touched_state =
     \<lparr>score_frame = replicate 4160 100,
      score_frame_adjacent = replicate 4160 0,
      score_last_frame_adjacent = replicate 4160 0,
      sigma_frame = replicate 4160 1,
      average_frame = replicate 4160 0,
      touch_contacts = replicate 10 zero_contact,
      contact_index = 0, faults = []\<rparr>"

text \<open>The status a transfer completed with.\<close>

fun completion_status :: "completion \<Rightarrow> int" where
  "completion_status (Read_completion status len) = status"
| "completion_status (Write_completion status) = status"

text \<open>The faults that are divisions by a zero sigma.\<close>

fun is_division :: "fault \<Rightarrow> bool" where
  "is_division (Division_by_zero p) = True"
| "is_division (Adjacent_store_out_of_bounds p) = False"
| "is_division (Contact_store_out_of_bounds p) = False"

section \<open>Properties\<close>

subsection \<open>Cell indices\<close>

lemma cell_index_alt:
  "0 \<le> i \<Longrightarrow> i < 64 \<Longrightarrow> 0 \<le> j \<Longrightarrow> j < 64 \<Longrightarrow>
   cell_index i j = (if i = 63 then j else j + i * 64 + 64)"
  by (simp add: cell_index_def BLOB_LINE_OFFSET_def)

lemma cell_index_inj:
  assumes "0 \<le> i" "i < 64" "0 \<le> j" "j < 64" "0 \<le> i'" "i' < 64" "0 \<le> j'" "j' < 64"
    and e: "cell_index i j = cell_index i' j'"
  shows "i = i' \<and> j = j'"
proof -
  have a: "cell_index i j = (if i = 63 then j else j + i * 64 + 64)"
    and b: "cell_index i' j' = (if i' = 63 then j' else j' + i' * 64 + 64)"
    using assms by (simp_all add: cell_index_alt)
  show ?thesis
  proof (cases "i = 63")
    case True
    show ?thesis
    proof (cases "i' = 63")
      case True
      with \<open>i = 63\<close> a b e show ?thesis by simp
    next
      case False
      with \<open>i = 63\<close> a b e assms show ?thesis by simp
    qed
  next
    case False
    show ?thesis
    proof (cases "i' = 63")
      case True
      with \<open>i \<noteq> 63\<close> a b e assms show ?thesis by simp
    next
      case False
      with \<open>i \<noteq> 63\<close> a b e have "j + i * 64 = j' + i' * 64" by simp
      moreover have "(j + i * 64) div 64 = i" "(j' + i' * 64) div 64 = i'"
        using assms by simp_all
      ultimately have "i = i'" by simp
      with \<open>j + i * 64 = j' + i' * 64\<close> show ?thesis by simp
    qed
  qed
qed

lemma set_cells: "(i, j) \<in> set cells \<longleftrightarrow> 0 \<le> i \<and> i < 64 \<and> 0 \<le> j \<and> j < 64"
proof -
  have "\<And>k::int. k \<in> int ` {0..<64} \<longleftrightarrow> 0 \<le> k \<and> k < 64"
    by (auto simp: image_iff intro: bexI [where x = "nat _"])
  then show ?thesis by (simp add: cells_def)
qed

lemma distinct_cells: "distinct cells"
  by (simp add: cells_def distinct_product distinct_map inj_on_def)

lemma slot_less: "c \<in> set cells \<Longrightarrow> slot c < 4096"
  by (cases c) (simp add: slot_def set_cells cell_index_def)

lemma distinct_slots: "distinct (map slot cells)"
  unfolding distinct_map
proof (intro conjI inj_onI)
  show "distinct cells" by (rule distinct_cells)
next
  fix c d assume c: "c \<in> set cells" and d: "d \<in> set cells" and e: "slot c = slot d"
  obtain i j where [simp]: "c = (i, j)" by (cases c)
  obtain i' j' where [simp]: "d = (i', j')" by (cases d)
  from c d have r: "0 \<le> i" "i < 64" "0 \<le> j" "j < 64" "0 \<le> i'" "i' < 64" "0 \<le> j'" "j' < 64"
    by (simp_all add: set_cells)
  then have "0 \<le> cell_index i j" "0 \<le> cell_index i' j'" by (simp_all add: cell_index_def)
  with e have "cell_index i j = cell_index i' j'" by (simp add: slot_def)
  with r show "c = d" using cell_index_inj [of i j i' j'] by simp
qed

subsection \<open>The two loops as one pass over the cells\<close>

lemma fold_rows_cells:
  "fold (\<lambda>i. fold (\<lambda>j. f i j) ys) xs s = fold (\<lambda>c. f (fst c) (snd c)) (List.product xs ys) s"
  by (induction xs arbitrary: s) (simp_all add: fold_map comp_def)

lemma normalize_cells:
  "normalize_frame cur fi sn ac s =
     fold (\<lambda>c. normalize_cell cur fi sn ac (fst c) (snd c)) cells (s\<lparr>contact_index := 0\<rparr>)"
  unfolding normalize_frame_def normalize_row_def cells_def by (rule fold_rows_cells)

text \<open>A pass whose steps leave a component alone leaves it alone.\<close>

lemma fold_keeps:
  assumes "\<And>c s. get (f c s) = get s"
  shows "get (fold f cs s) = get s"
  using assms by (induction cs arbitrary: s) simp_all

text \<open>
  A pass whose step for \<open>c\<close> rewrites position \<open>n c\<close> of a list component, from the
  old element alone: positions that are not visited keep their element, the length stays,
  and a position visited once holds the rewritten element.
\<close>

lemma fold_pointwise_other:
  assumes step: "\<And>c s. get (f c s) = (get s)[n c := g c (get s ! n c)]"
  shows "p \<notin> n ` set cs \<Longrightarrow> get (fold f cs s) ! p = get s ! p"
  by (induction cs arbitrary: s) (auto simp: step)

lemma fold_pointwise_length:
  assumes step: "\<And>c s. get (f c s) = (get s)[n c := g c (get s ! n c)]"
  shows "length (get (fold f cs s)) = length (get s)"
  by (induction cs arbitrary: s) (simp_all add: step)

lemma fold_pointwise:
  assumes step: "\<And>c s. get (f c s) = (get s)[n c := g c (get s ! n c)]"
  shows "distinct (map n cs) \<Longrightarrow> c \<in> set cs \<Longrightarrow> n c < length (get s) \<Longrightarrow>
         get (fold f cs s) ! n c = g c (get s ! n c)"
proof (induction cs arbitrary: s)
  case Nil
  then show ?case by simp
next
  case (Cons a cs)
  show ?case
  proof (cases "c = a")
    case True
    with Cons.prems have "n a \<notin> n ` set cs" by simp
    then have "get (fold f cs (f a s)) ! n a = get (f a s) ! n a"
      by (rule fold_pointwise_other [of get f n g, OF step])
    with True Cons.prems show ?thesis by (simp add: step)
  next
    case False
    with Cons.prems have c: "c \<in> set cs" and d: "distinct (map n cs)" and ne: "n a \<noteq> n c"
      by auto
    from Cons.prems have "n c < length (get (f a s))" by (simp add: step)
    with Cons.IH [OF d c] have "get (fold f cs (f a s)) ! n c = g c (get (f a s) ! n c)" .
    with ne show ?thesis by (simp add: step)
  qed
qed

subsection \<open>The averaging phase\<close>

lemma average_cell_accumulate:
  "\<not> ac \<Longrightarrow> fi < 255 \<Longrightarrow>
   average_frame (normalize_cell cur fi sn ac (fst c) (snd c) s) =
     (average_frame s)[slot c := (if fi = 0 then ucast (cur ! slot c)
                                   else average_frame s ! slot c + ucast (cur ! slot c))]"
  by (simp add: normalize_cell_def slot_def Let_def calib_defs)

lemma average_cell_finalize:
  "\<not> ac \<Longrightarrow> fi = 255 \<Longrightarrow>
   average_frame (normalize_cell cur fi sn ac (fst c) (snd c) s) =
     (average_frame s)[slot c := average_frame s ! slot c div 255]"
  by (simp add: normalize_cell_def slot_def Let_def calib_defs)

lemma normalize_average_accumulate:
  assumes "\<not> ac" "fi < 255" "c \<in> set cells" "4096 \<le> length (average_frame s)"
  shows "average_frame (normalize_frame cur fi sn ac s) ! slot c =
           (if fi = 0 then ucast (cur ! slot c) else average_frame s ! slot c + ucast (cur ! slot c))"
proof -
  have "slot c < length (average_frame (s\<lparr>contact_index := 0\<rparr>))"
    using slot_less [OF assms(3)] assms(4) by simp
  from fold_pointwise [of average_frame "\<lambda>c. normalize_cell cur fi sn ac (fst c) (snd c)" slot
        "\<lambda>c v. if fi = 0 then ucast (cur ! slot c) else v + ucast (cur ! slot c)",
        OF average_cell_accumulate [OF assms(1,2)] distinct_slots assms(3) this]
  show ?thesis by (simp add: normalize_cells)
qed

lemma normalize_average_finalize:
  assumes "\<not> ac" "fi = 255" "c \<in> set cells" "4096 \<le> length (average_frame s)"
  shows "average_frame (normalize_frame cur fi sn ac s) ! slot c = average_frame s ! slot c div 255"
proof -
  have "slot c < length (average_frame (s\<lparr>contact_index := 0\<rparr>))"
    using slot_less [OF assms(3)] assms(4) by simp
  from fold_pointwise [of average_frame "\<lambda>c. normalize_cell cur fi sn ac (fst c) (snd c)" slot
        "\<lambda>c v. v div 255",
        OF average_cell_finalize [OF assms(1,2)] distinct_slots assms(3) this]
  show ?thesis by (simp add: normalize_cells)
qed

lemma normalize_average_length:
  assumes "\<not> ac" "fi \<le> 255"
  shows "length (average_frame (normalize_frame cur fi sn ac s)) = length (average_frame s)"
proof (cases "fi = 255")
  case True
  from fold_pointwise_length [of average_frame "\<lambda>c. normalize_cell cur fi sn ac (fst c) (snd c)" slot
        "\<lambda>c v. v div 255", OF average_cell_finalize [OF assms(1) True]]
  show ?thesis by (simp add: normalize_cells)
next
  case False
  with assms have "fi < 255" by simp
  from fold_pointwise_length [of average_frame "\<lambda>c. normalize_cell cur fi sn ac (fst c) (snd c)" slot
        "\<lambda>c v. if fi = 0 then ucast (cur ! slot c) else v + ucast (cur ! slot c)",
        OF average_cell_accumulate [OF assms(1) this]]
  show ?thesis by (simp add: normalize_cells)
qed

subsection \<open>The counter and the flags across a tick\<close>

lemma poll_frame_index:
  "0 \<le> r \<Longrightarrow> frame_index (fst (skel_poll r f d)) = (if frame_index d > 7000 then 1 else frame_index d + 1)"
  by (simp add: skel_poll_def Let_def calib_defs)

lemma poll_average_computed:
  "0 \<le> r \<Longrightarrow> average_computed (fst (skel_poll r f d)) =
     (\<not> frame_index d > 7000 \<and> (average_computed d \<or> frame_index d = 255))"
  by (auto simp add: skel_poll_def Let_def calib_defs)

lemma poll_sigma_normalized:
  "0 \<le> r \<Longrightarrow> sigma_normalized (fst (skel_poll r f d)) =
     (\<not> frame_index d > 7000 \<and> (sigma_normalized d \<or> frame_index d = 510))"
  by (auto simp add: skel_poll_def Let_def calib_defs)

lemma poll_average_frame:
  "0 \<le> r \<Longrightarrow> average_frame (fst (skel_poll r f d)) =
     average_frame (normalize_frame f (frame_index d) (sigma_normalized d) (average_computed d)
        (normalize_memory d))"
  by (simp add: skel_poll_def Let_def normalize_memory_def)

lemma normalize_memory_simps [simp]:
  "average_frame (normalize_memory d) = average_frame d"
  "sigma_frame (normalize_memory d) = sigma_frame d"
  "faults (normalize_memory d) = []"
  by (simp_all add: normalize_memory_def)

lemma poll_run_Cons:
  "fst (poll_run ((r, f) # ts) d) = fst (poll_run ts (fst (skel_poll r f d)))"
  by (simp split: prod.splits)

lemma poll_run_append:
  "fst (poll_run (ts @ us) d) = fst (poll_run us (fst (poll_run ts d)))"
proof (induction ts arbitrary: d)
  case Nil
  show ?case by simp
next
  case (Cons t ts)
  obtain r f where t: "t = (r, f)" by (cases t)
  show ?case unfolding t append_Cons poll_run_Cons by (rule Cons.IH)
qed

subsection \<open>Averaging over a run of frames\<close>

lemma average_run:
  assumes "c \<in> set cells"
  shows "\<not> average_computed d \<Longrightarrow> 0 \<le> frame_index d \<Longrightarrow> frame_index d + int (length fs) \<le> 255 \<Longrightarrow>
     4096 \<le> length (average_frame d) \<Longrightarrow>
     (let d' = fst (poll_run (map (Pair 0) fs) d)
      in frame_index d' = frame_index d + int (length fs) \<and> \<not> average_computed d' \<and>
         length (average_frame d') = length (average_frame d) \<and>
         average_frame d' ! slot c =
           (if frame_index d = 0 \<and> fs \<noteq> [] then wsum (slot c) fs
            else average_frame d ! slot c + wsum (slot c) fs))"
proof (induction fs arbitrary: d)
  case Nil
  then show ?case by (simp add: wsum_def)
next
  case (Cons f fs)
  let ?d1 = "fst (skel_poll 0 f d)"
  from Cons.prems have k: "frame_index d < 255" by simp
  have fi: "frame_index ?d1 = frame_index d + 1"
    using k by (simp add: poll_frame_index)
  have ac: "\<not> average_computed ?d1"
    using k Cons.prems(1) by (simp add: poll_average_computed)
  have len: "length (average_frame ?d1) = length (average_frame d)"
    using k Cons.prems(1) by (simp add: poll_average_frame normalize_average_length)
  have av: "average_frame ?d1 ! slot c =
      (if frame_index d = 0 then ucast (f ! slot c) else average_frame d ! slot c + ucast (f ! slot c))"
    using k Cons.prems(1,4) assms
    by (simp add: poll_average_frame normalize_average_accumulate)
  have "let d' = fst (poll_run (map (Pair 0) fs) ?d1)
      in frame_index d' = frame_index ?d1 + int (length fs) \<and> \<not> average_computed d' \<and>
         length (average_frame d') = length (average_frame ?d1) \<and>
         average_frame d' ! slot c =
           (if frame_index ?d1 = 0 \<and> fs \<noteq> [] then wsum (slot c) fs
            else average_frame ?d1 ! slot c + wsum (slot c) fs)"
    using Cons.prems fi len by (intro Cons.IH [OF ac]) simp_all
  then show ?case
    using fi len av Cons.prems(2)
    by (simp add: Let_def poll_run_Cons wsum_def add.assoc del: poll_run.simps)
qed

lemma unat_u8_less: "unat (b :: u8) < 256"
  using unsigned_less [of b, where 'a = nat] by simp

lemma unat_ucast_u8: "unat (ucast (b::u8) :: u16) = unat b"
  using unat_u8_less [of b] by (simp add: unsigned_ucast_eq take_bit_nat_eq_self_iff)

text \<open>Up to 257 bytes add up in 16 bits without a carry.\<close>

lemma unat_wsum:
  "255 * length fs < 65536 \<Longrightarrow> unat (wsum n fs) = (\<Sum>f\<leftarrow>fs. unat (f ! n))"
proof (induction fs)
  case Nil
  then show ?case by (simp add: wsum_def)
next
  case (Cons f fs)
  then have ih: "unat (wsum n fs) = (\<Sum>f\<leftarrow>fs. unat (f ! n))" by simp
  have b: "(\<Sum>f\<leftarrow>fs. unat (f ! n)) \<le> 255 * length fs"
  proof (induction fs)
    case Nil show ?case by simp
  next
    case (Cons g gs)
    have "unat (g ! n) < 256" by (rule unat_u8_less)
    with Cons show ?case by simp
  qed
  have f: "unat (f ! n) < 256" by (rule unat_u8_less)
  have "unat (wsum n (f # fs)) = (unat (ucast (f ! n) :: u16) + unat (wsum n fs)) mod 65536"
    by (simp add: wsum_def unat_word_ariths)
  also have "unat (ucast (f ! n) :: u16) = unat (f ! n)"
    by (rule unat_ucast_u8)
  finally show ?case using ih b f Cons.prems by simp
qed

text \<open>
  C7. From a device whose \<open>frame_index\<close> is 0 and whose average is not yet computed,
  after \<open>f + 1 \<le> 255\<close> frames the average buffer holds, at every cell, the exact sum
  of the bytes the frames had at that cell (the 16-bit accumulator does not wrap), and
  the frame processed at \<open>frame_index = 255\<close> replaces that sum of 255 frames by its
  quotient by 255.
\<close>

theorem average_accumulation:
  assumes "frame_index dev = 0" and "\<not> average_computed dev"
    and "length (average_frame dev) = 4160"
    and "frames \<noteq> []" and "length frames \<le> 255"
    and "0 \<le> i" and "i < 64" and "0 \<le> j" and "j < 64"
  shows "unat (average_frame (fst (poll_run (map (Pair 0) frames) dev)) ! nat (cell_index i j))
           = (\<Sum>f\<leftarrow>frames. unat (f ! nat (cell_index i j)))
         \<and> (length frames = 255 \<longrightarrow>
              unat (average_frame (fst (poll_run (map (Pair 0) (frames @ [g])) dev))
                      ! nat (cell_index i j))
                = (\<Sum>f\<leftarrow>frames. unat (f ! nat (cell_index i j))) div 255)"
proof -
  let ?c = "(i, j)"
  let ?d = "fst (poll_run (map (Pair 0) frames) dev)"
  have c: "?c \<in> set cells" using assms by (simp add: set_cells)
  have s: "slot ?c = nat (cell_index i j)" by (simp add: slot_def)
  from average_run [OF c, of dev frames] assms
  have r: "frame_index ?d = int (length frames)" "\<not> average_computed ?d"
    "length (average_frame ?d) = 4160"
    "average_frame ?d ! slot ?c = wsum (slot ?c) frames"
    by (simp_all add: Let_def)
  have u: "unat (wsum (slot ?c) frames) = (\<Sum>f\<leftarrow>frames. unat (f ! slot ?c))"
    using assms by (intro unat_wsum) simp
  have first: "unat (average_frame ?d ! nat (cell_index i j))
           = (\<Sum>f\<leftarrow>frames. unat (f ! nat (cell_index i j)))"
    using r(4) u s by simp
  have second: "unat (average_frame (fst (poll_run (map (Pair 0) (frames @ [g])) dev))
                      ! nat (cell_index i j))
                = (\<Sum>f\<leftarrow>frames. unat (f ! nat (cell_index i j))) div 255"
    if l: "length frames = 255"
  proof -
    have "fst (poll_run (map (Pair 0) (frames @ [g])) dev) = fst (skel_poll 0 g ?d)"
      by (simp add: poll_run_append del: poll_run.simps) (simp split: prod.splits)
    moreover have "average_frame (fst (skel_poll 0 g ?d)) ! slot ?c = average_frame ?d ! slot ?c div 255"
      using r l c by (simp add: poll_average_frame normalize_average_finalize)
    ultimately show ?thesis using first s by (simp add: unat_div)
  qed
  from first second show ?thesis by blast
qed

theorem average_accumulation_witness:
  "unat (average_frame (fst (poll_run (map (Pair 0) (replicate 255 (replicate 4160 7))) skel_probe))
          ! nat (cell_index 10 10)) = 1785
   \<and> unat (average_frame (fst (poll_run (map (Pair 0) (replicate 255 (replicate 4160 7) @ [replicate 4160 0]))
                                  skel_probe)) ! nat (cell_index 10 10)) = 7"
  using average_accumulation [of skel_probe "replicate 255 (replicate 4160 7)" 10 10 "replicate 4160 0"]
  by (simp add: skel_probe_def cell_index_def BLOB_LINE_OFFSET_def sum_list_replicate)

subsection \<open>What the steady-state branch leaves alone\<close>

lemma adjacent_add_keeps [simp]:
  "sigma_frame (adjacent_add dst v s) = sigma_frame s"
  "average_frame (adjacent_add dst v s) = average_frame s"
  "score_frame (adjacent_add dst v s) = score_frame s"
  "score_last_frame_adjacent (adjacent_add dst v s) = score_last_frame_adjacent s"
  "touch_contacts (adjacent_add dst v s) = touch_contacts s"
  "contact_index (adjacent_add dst v s) = contact_index s"
  by (simp_all add: adjacent_add_def)

lemma adjacent_step_keeps [simp]:
  "sigma_frame (adjacent_step i j n k l s) = sigma_frame s"
  "average_frame (adjacent_step i j n k l s) = average_frame s"
  "score_frame (adjacent_step i j n k l s) = score_frame s"
  "score_last_frame_adjacent (adjacent_step i j n k l s) = score_last_frame_adjacent s"
  "touch_contacts (adjacent_step i j n k l s) = touch_contacts s"
  "contact_index (adjacent_step i j n k l s) = contact_index s"
  by (simp_all add: adjacent_step_def Let_def)

lemma adjacent_sum_keeps [simp]:
  "sigma_frame (adjacent_sum i j n s) = sigma_frame s"
  "average_frame (adjacent_sum i j n s) = average_frame s"
  "score_frame (adjacent_sum i j n s) = score_frame s"
  "score_last_frame_adjacent (adjacent_sum i j n s) = score_last_frame_adjacent s"
  "touch_contacts (adjacent_sum i j n s) = touch_contacts s"
  "contact_index (adjacent_sum i j n s) = contact_index s"
  by (simp_all add: adjacent_sum_def)

lemma contact_store_keeps [simp]:
  "sigma_frame (contact_store n i j s) = sigma_frame s"
  "average_frame (contact_store n i j s) = average_frame s"
  "score_frame (contact_store n i j s) = score_frame s"
  "score_frame_adjacent (contact_store n i j s) = score_frame_adjacent s"
  "score_last_frame_adjacent (contact_store n i j s) = score_last_frame_adjacent s"
  "contact_index (contact_store n i j s) = contact_index s"
  by (simp_all add: contact_store_def)

lemma contact_update_keeps [simp]:
  "sigma_frame (contact_update i j s) = sigma_frame s"
  "average_frame (contact_update i j s) = average_frame s"
  "score_frame (contact_update i j s) = score_frame s"
  "score_frame_adjacent (contact_update i j s) = score_frame_adjacent s"
  "score_last_frame_adjacent (contact_update i j s) = score_last_frame_adjacent s"
  by (simp_all add: contact_update_def Let_def)

lemma steady_score_keeps [simp]:
  "sigma_frame (steady_score cur n s) = sigma_frame s"
  "average_frame (steady_score cur n s) = average_frame s"
  "score_last_frame_adjacent (steady_score cur n s) = score_last_frame_adjacent s"
  "touch_contacts (steady_score cur n s) = touch_contacts s"
  "contact_index (steady_score cur n s) = contact_index s"
  "score_frame_adjacent (steady_score cur n s) = (score_frame_adjacent s)[nat n := 0]"
  by (simp_all add: steady_score_def Let_def)

lemma smooth_keeps [simp]:
  "sigma_frame (smooth n s) = sigma_frame s"
  "average_frame (smooth n s) = average_frame s"
  "score_frame (smooth n s) = score_frame s"
  "score_last_frame_adjacent (smooth n s) = score_last_frame_adjacent s"
  "touch_contacts (smooth n s) = touch_contacts s"
  "contact_index (smooth n s) = contact_index s"
  "faults (smooth n s) = faults s"
  by (simp_all add: smooth_def)

lemma contact_pass_keeps [simp]:
  "sigma_frame (contact_pass t i j s) = sigma_frame s"
  "average_frame (contact_pass t i j s) = average_frame s"
  "score_frame (contact_pass t i j s) = score_frame s"
  "score_frame_adjacent (contact_pass t i j s) = score_frame_adjacent s"
  "score_last_frame_adjacent (contact_pass t i j s) = score_last_frame_adjacent s"
  by (simp_all add: contact_pass_def)

lemma steady_smoothed_keeps [simp]:
  "sigma_frame (steady_smoothed cur i j s) = sigma_frame s"
  "average_frame (steady_smoothed cur i j s) = average_frame s"
  "score_last_frame_adjacent (steady_smoothed cur i j s) = score_last_frame_adjacent s"
  "touch_contacts (steady_smoothed cur i j s) = touch_contacts s"
  "contact_index (steady_smoothed cur i j s) = contact_index s"
  by (simp_all add: steady_smoothed_def Let_def)

lemma steady_cell_keeps [simp]:
  "sigma_frame (steady_cell cur i j s) = sigma_frame s"
  "average_frame (steady_cell cur i j s) = average_frame s"
  by (simp_all add: steady_cell_def Let_def)

lemma normalize_cell_sigma_keeps:
  "sn \<Longrightarrow> sigma_frame (normalize_cell cur fi sn ac i j s) = sigma_frame s"
  by (simp add: normalize_cell_def Let_def)

lemma normalize_cell_sigma_length:
  "length (sigma_frame (normalize_cell cur fi sn ac i j s)) = length (sigma_frame s)"
  by (simp add: normalize_cell_def Let_def)

subsection \<open>Divisions by sigma\<close>

lemma fold_invariant:
  assumes "\<And>c s. c \<in> set cs \<Longrightarrow> P s \<Longrightarrow> P (f c s)" and "P s"
  shows "P (fold f cs s)"
  using assms by (induction cs arbitrary: s) simp_all

lemma adjacent_add_division [simp]:
  "filter is_division (faults (adjacent_add dst v s)) = filter is_division (faults s)"
  by (simp add: adjacent_add_def)

lemma adjacent_step_division [simp]:
  "filter is_division (faults (adjacent_step i j n k l s)) = filter is_division (faults s)"
  by (simp add: adjacent_step_def Let_def)

lemma adjacent_sum_division [simp]:
  "filter is_division (faults (adjacent_sum i j n s)) = filter is_division (faults s)"
  by (simp add: adjacent_sum_def)

lemma contact_store_division [simp]:
  "filter is_division (faults (contact_store n i j s)) = filter is_division (faults s)"
  by (simp add: contact_store_def)

lemma contact_update_division [simp]:
  "filter is_division (faults (contact_update i j s)) = filter is_division (faults s)"
  by (simp add: contact_update_def Let_def)

lemma steady_score_division:
  "sigma_frame s ! nat n \<noteq> 0 \<Longrightarrow>
   filter is_division (faults (steady_score cur n s)) = filter is_division (faults s)"
  by (simp add: steady_score_def Let_def)

lemma contact_pass_division [simp]:
  "filter is_division (faults (contact_pass t i j s)) = filter is_division (faults s)"
  by (simp add: contact_pass_def)

lemma steady_cell_division:
  "sigma_frame s ! nat (cell_index i j) \<noteq> 0 \<Longrightarrow>
   filter is_division (faults (steady_cell cur i j s)) = filter is_division (faults s)"
  by (simp add: steady_cell_def steady_smoothed_def Let_def steady_score_division)

lemma normalize_cell_division:
  "sigma_frame s ! nat (cell_index i j) \<noteq> 0 \<Longrightarrow>
   filter is_division (faults (normalize_cell cur fi sn ac i j s)) = filter is_division (faults s)"
  by (simp add: normalize_cell_def Let_def steady_cell_division)

lemma normalize_cell_calibrating:
  "\<not> (sn \<and> ac) \<Longrightarrow> faults (normalize_cell cur fi sn ac i j s) = faults s"
  by (auto simp add: normalize_cell_def Let_def)

lemma normalize_frame_sigma_keeps:
  "sn \<Longrightarrow> sigma_frame (normalize_frame cur fi sn ac s) = sigma_frame s"
  unfolding normalize_cells
  using fold_keeps [of sigma_frame "\<lambda>c. normalize_cell cur fi sn ac (fst c) (snd c)" cells "s\<lparr>contact_index := 0\<rparr>"]
  by (simp add: normalize_cell_sigma_keeps)

lemma normalize_frame_sigma_length:
  "length (sigma_frame (normalize_frame cur fi sn ac s)) = length (sigma_frame s)"
  unfolding normalize_cells
  using fold_keeps [of "\<lambda>s. length (sigma_frame s)" "\<lambda>c. normalize_cell cur fi sn ac (fst c) (snd c)"
      cells "s\<lparr>contact_index := 0\<rparr>"]
  by (simp add: normalize_cell_sigma_length)

lemma normalize_frame_division:
  assumes "sn \<Longrightarrow> ac \<Longrightarrow> \<forall>c\<in>set cells. sigma_frame s ! slot c \<noteq> 0"
  shows "filter is_division (faults (normalize_frame cur fi sn ac s)) = filter is_division (faults s)"
proof (cases "sn \<and> ac")
  case True
  let ?P = "\<lambda>t::normalize_state. sigma_frame t = sigma_frame s \<and>
                 filter is_division (faults t) = filter is_division (faults s)"
  have "?P (fold (\<lambda>c. normalize_cell cur fi sn ac (fst c) (snd c)) cells (s\<lparr>contact_index := 0\<rparr>))"
  proof (rule fold_invariant)
    show "?P (s\<lparr>contact_index := 0\<rparr>)" by simp
  next
    fix c t assume c: "c \<in> set cells" and t: "?P t"
    with assms True have "sigma_frame t ! nat (cell_index (fst c) (snd c)) \<noteq> 0"
      by (simp add: slot_def)
    then show "?P (normalize_cell cur fi sn ac (fst c) (snd c) t)"
      using t True by (simp add: normalize_cell_sigma_keeps normalize_cell_division)
  qed
  then show ?thesis by (simp add: normalize_cells)
next
  case False
  let ?P = "\<lambda>t::normalize_state. filter is_division (faults t) = filter is_division (faults s)"
  have "?P (fold (\<lambda>c. normalize_cell cur fi sn ac (fst c) (snd c)) cells (s\<lparr>contact_index := 0\<rparr>))"
  proof (rule fold_invariant)
    show "?P (s\<lparr>contact_index := 0\<rparr>)" by simp
  next
    fix c t assume "?P t"
    then show "?P (normalize_cell cur fi sn ac (fst c) (snd c) t)"
      using False by (simp add: normalize_cell_calibrating)
  qed
  then show ?thesis by (simp add: normalize_cells)
qed

lemma sigma_cell_finalize:
  "\<not> sn \<Longrightarrow> fi = 510 \<Longrightarrow>
   sigma_frame (normalize_cell cur fi sn ac (fst c) (snd c) s) =
     (sigma_frame s)[slot c := (if sigma_frame s ! slot c div 255 < 1 then 1
                                else sigma_frame s ! slot c div 255)]"
  by (simp add: normalize_cell_def slot_def Let_def calib_defs)

lemma normalize_sigma_finalize:
  assumes "\<not> sn" "fi = 510" "c \<in> set cells" "4096 \<le> length (sigma_frame s)"
  shows "sigma_frame (normalize_frame cur fi sn ac s) ! slot c =
           (if sigma_frame s ! slot c div 255 < 1 then 1 else sigma_frame s ! slot c div 255)"
proof -
  have "slot c < length (sigma_frame (s\<lparr>contact_index := 0\<rparr>))"
    using slot_less [OF assms(3)] assms(4) by simp
  from fold_pointwise [of sigma_frame "\<lambda>c. normalize_cell cur fi sn ac (fst c) (snd c)" slot
        "\<lambda>c v. if v div 255 < 1 then 1 else v div 255",
        OF sigma_cell_finalize [OF assms(1,2)] distinct_slots assms(3) this]
  show ?thesis by (simp add: normalize_cells)
qed

lemma normalize_sigma_floor:
  assumes "\<not> sn" "fi = 510" "c \<in> set cells" "4096 \<le> length (sigma_frame s)"
  shows "1 \<le> sigma_frame (normalize_frame cur fi sn ac s) ! slot c"
proof -
  have "\<And>v::u16. \<not> v < 1 \<Longrightarrow> 1 \<le> v"
    by (simp add: word_le_nat_alt Suc_le_eq unat_gt_0)
  then show ?thesis unfolding normalize_sigma_finalize [OF assms] by simp
qed

subsection \<open>The sigma floor across ticks\<close>

lemma poll_failed: "r < 0 \<Longrightarrow> skel_poll r f d = (d\<lparr>bulk_in_buffer := f\<rparr>, [], [])"
  by (simp add: skel_poll_def)

lemma poll_sigma_frame:
  "0 \<le> r \<Longrightarrow> sigma_frame (fst (skel_poll r f d)) =
     sigma_frame (normalize_frame f (frame_index d) (sigma_normalized d) (average_computed d)
        (normalize_memory d))"
  by (simp add: skel_poll_def Let_def normalize_memory_def)

lemma poll_faults:
  "0 \<le> r \<Longrightarrow> snd (snd (skel_poll r f d)) =
     faults (normalize_frame f (frame_index d) (sigma_normalized d) (average_computed d)
        (normalize_memory d))"
  by (simp add: skel_poll_def Let_def normalize_memory_def)

lemma poll_run_faults_Cons:
  "snd (poll_run ((r, f) # ts) d) =
     snd (snd (skel_poll r f d)) @ snd (poll_run ts (fst (skel_poll r f d)))"
  by (simp split: prod.splits)

lemma poll_sigma_invariant:
  assumes len: "4096 \<le> length (sigma_frame d)"
    and inv: "sigma_normalized d \<Longrightarrow> \<forall>c\<in>set cells. sigma_frame d ! slot c \<noteq> 0"
  shows "4096 \<le> length (sigma_frame (fst (skel_poll r f d)))"
    and "sigma_normalized (fst (skel_poll r f d)) \<Longrightarrow>
           \<forall>c\<in>set cells. sigma_frame (fst (skel_poll r f d)) ! slot c \<noteq> 0"
    and "filter is_division (snd (snd (skel_poll r f d))) = []"
proof -
  show "4096 \<le> length (sigma_frame (fst (skel_poll r f d)))"
    using len by (cases "r < 0") (simp_all add: poll_failed poll_sigma_frame normalize_frame_sigma_length)
  show "filter is_division (snd (snd (skel_poll r f d))) = []"
  proof (cases "r < 0")
    case True
    then show ?thesis by (simp add: poll_failed)
  next
    case False
    have "filter is_division
            (faults (normalize_frame f (frame_index d) (sigma_normalized d) (average_computed d)
               (normalize_memory d)))
          = filter is_division (faults (normalize_memory d))"
      using inv by (intro normalize_frame_division) simp
    with False show ?thesis by (simp add: poll_faults)
  qed
  show "\<forall>c\<in>set cells. sigma_frame (fst (skel_poll r f d)) ! slot c \<noteq> 0"
    if sn': "sigma_normalized (fst (skel_poll r f d))"
  proof (cases "r < 0")
    case True
    with sn' inv show ?thesis by (simp add: poll_failed)
  next
    case False
    then have r: "0 \<le> r" by simp
    show ?thesis
    proof (cases "sigma_normalized d")
      case True
      with inv r show ?thesis by (simp add: poll_sigma_frame normalize_frame_sigma_keeps)
    next
      case sn: False
      with sn' r have fi: "frame_index d = 510" by (simp add: poll_sigma_normalized)
      show ?thesis
      proof
        fix c assume "c \<in> set cells"
        with sn fi len
        have "1 \<le> sigma_frame (normalize_frame f (frame_index d) (sigma_normalized d)
                     (average_computed d) (normalize_memory d)) ! slot c"
          by (intro normalize_sigma_floor) simp_all
        then show "sigma_frame (fst (skel_poll r f d)) ! slot c \<noteq> 0"
          using r by (auto simp add: poll_sigma_frame)
      qed
    qed
  qed
qed

lemma run_sigma_invariant:
  "4096 \<le> length (sigma_frame d) \<Longrightarrow>
   (sigma_normalized d \<Longrightarrow> \<forall>c\<in>set cells. sigma_frame d ! slot c \<noteq> 0) \<Longrightarrow>
   4096 \<le> length (sigma_frame (fst (poll_run ts d))) \<and>
   (sigma_normalized (fst (poll_run ts d)) \<longrightarrow>
      (\<forall>c\<in>set cells. sigma_frame (fst (poll_run ts d)) ! slot c \<noteq> 0)) \<and>
   filter is_division (snd (poll_run ts d)) = []"
proof (induction ts arbitrary: d)
  case Nil
  then show ?case by simp
next
  case (Cons t ts)
  obtain r f where t: "t = (r, f)" by (cases t)
  note step = poll_sigma_invariant [OF Cons.prems(1), of r f, OF Cons.prems(2)]
  from Cons.IH [OF step(1,2)] step(3)
  show ?case unfolding t poll_run_Cons poll_run_faults_Cons by simp
qed

text \<open>
  C6. From a device whose sigma is not yet normalized (as after power-on and after a
  recalibration), whatever ticks follow: the tick at \<open>frame_index = 510\<close> leaves a
  sigma of at least 1 at every cell and sets \<open>sigma_normalized\<close>; in every state reached
  in which \<open>sigma_normalized\<close> holds, the sigma of every cell is at least 1; and no tick
  divides by a zero sigma.
\<close>

theorem sigma_floor:
  assumes "length (sigma_frame dev) = 4160" and "\<not> sigma_normalized dev"
    and "0 \<le> i" and "i < 64" and "0 \<le> j" and "j < 64"
  shows "(sigma_normalized (fst (poll_run ticks dev)) \<longrightarrow>
            1 \<le> sigma_frame (fst (poll_run ticks dev)) ! nat (cell_index i j))
       \<and> (\<not> sigma_normalized (fst (poll_run ticks dev))
            \<and> frame_index (fst (poll_run ticks dev)) = 510 \<and> 0 \<le> result \<longrightarrow>
            sigma_normalized (fst (skel_poll result fetched (fst (poll_run ticks dev))))
            \<and> 1 \<le> sigma_frame (fst (skel_poll result fetched (fst (poll_run ticks dev))))
                     ! nat (cell_index i j))
       \<and> filter is_division (snd (poll_run ticks dev)) = []"
proof -
  have c: "(i, j) \<in> set cells" using assms by (simp add: set_cells)
  have s: "slot (i, j) = nat (cell_index i j)" by (simp add: slot_def)
  have nz: "\<And>v::u16. v \<noteq> 0 \<Longrightarrow> 1 \<le> v"
    by (simp add: word_le_nat_alt Suc_le_eq unat_gt_0)
  let ?d = "fst (poll_run ticks dev)"
  from run_sigma_invariant [of dev ticks] assms(1,2)
  have inv: "4096 \<le> length (sigma_frame ?d)"
    "sigma_normalized ?d \<longrightarrow> (\<forall>c\<in>set cells. sigma_frame ?d ! slot c \<noteq> 0)"
    "filter is_division (snd (poll_run ticks dev)) = []"
    by simp_all
  have first: "sigma_normalized ?d \<longrightarrow> 1 \<le> sigma_frame ?d ! nat (cell_index i j)"
    using inv(2) c s nz by force
  have second: "sigma_normalized (fst (skel_poll result fetched ?d))
            \<and> 1 \<le> sigma_frame (fst (skel_poll result fetched ?d)) ! nat (cell_index i j)"
    if h: "\<not> sigma_normalized ?d" "frame_index ?d = 510" "0 \<le> result"
  proof -
    have "1 \<le> sigma_frame (normalize_frame fetched (frame_index ?d) (sigma_normalized ?d)
                     (average_computed ?d) (normalize_memory ?d)) ! slot (i, j)"
      using h inv(1) c by (intro normalize_sigma_floor) simp_all
    with h show ?thesis by (simp add: poll_sigma_frame poll_sigma_normalized s)
  qed
  from first second inv(3) show ?thesis by blast
qed

theorem sigma_floor_witness:
  "sigma_normalized
     (fst (poll_run [(0, replicate 4160 0)] (skel_probe\<lparr>frame_index := 510, average_computed := True\<rparr>)))
   \<and> 1 \<le> sigma_frame
       (fst (poll_run [(0, replicate 4160 0)] (skel_probe\<lparr>frame_index := 510, average_computed := True\<rparr>)))
       ! nat (cell_index 10 10)
   \<and> sigma_frame (skel_probe\<lparr>frame_index := 510, average_computed := True\<rparr>) ! nat (cell_index 10 10) = 0"
proof -
  let ?d = "skel_probe\<lparr>frame_index := 510, average_computed := True\<rparr>"
  have sn: "sigma_normalized (fst (poll_run [(0, replicate 4160 0)] ?d))"
    unfolding poll_run_Cons by (simp add: poll_sigma_normalized skel_probe_def)
  from sigma_floor [of ?d 10 10 "[(0, replicate 4160 0)]"] sn
  show ?thesis by (simp add: skel_probe_def cell_index_def BLOB_LINE_OFFSET_def del: poll_run.simps)
qed

subsection \<open>A failed fetch\<close>

text \<open>
  C10. When the fetch of a tick fails (\<open>result < 0\<close>), the tick changes none of
  \<open>frame_index\<close>, \<open>average_computed\<close>, \<open>sigma_normalized\<close>, the average, sigma and
  score buffers and the contacts, and hands nothing to the input layer.
\<close>

theorem failed_fetch_changes_nothing:
  assumes "result < 0"
  shows "frame_index (fst (skel_poll result fetched dev)) = frame_index dev
       \<and> average_computed (fst (skel_poll result fetched dev)) = average_computed dev
       \<and> sigma_normalized (fst (skel_poll result fetched dev)) = sigma_normalized dev
       \<and> average_frame (fst (skel_poll result fetched dev)) = average_frame dev
       \<and> sigma_frame (fst (skel_poll result fetched dev)) = sigma_frame dev
       \<and> score_frame (fst (skel_poll result fetched dev)) = score_frame dev
       \<and> score_frame_adjacent (fst (skel_poll result fetched dev)) = score_frame_adjacent dev
       \<and> score_last_frame_adjacent (fst (skel_poll result fetched dev))
           = score_last_frame_adjacent dev
       \<and> touch_contacts (fst (skel_poll result fetched dev)) = touch_contacts dev
       \<and> fst (snd (skel_poll result fetched dev)) = []"
  using assms by (simp add: skel_poll_def)

theorem failed_fetch_changes_nothing_witness:
  "frame_index (fst (skel_poll (- 110) (replicate 4160 1) (skel_probe\<lparr>frame_index := 600\<rparr>))) = 600
   \<and> fst (snd (skel_poll (- 110) (replicate 4160 1) (skel_probe\<lparr>frame_index := 600\<rparr>))) = []
   \<and> fst (snd (skel_poll 0 (replicate 4160 1) (skel_probe\<lparr>frame_index := 600\<rparr>)))
       = [Mt_sync_frame, Sync]"
  using failed_fetch_changes_nothing [of "- 110" "replicate 4160 1" "skel_probe\<lparr>frame_index := 600\<rparr>"]
  by (simp add: skel_poll_def Let_def)

subsection \<open>Recalibration\<close>

lemma normalize_cell_average_keeps:
  "ac \<Longrightarrow> average_frame (normalize_cell cur fi sn ac i j s) = average_frame s"
  by (simp add: normalize_cell_def Let_def)

lemma normalize_frame_average_keeps:
  "ac \<Longrightarrow> average_frame (normalize_frame cur fi sn ac s) = average_frame s"
  unfolding normalize_cells
  using fold_keeps [of average_frame "\<lambda>c. normalize_cell cur fi sn ac (fst c) (snd c)" cells "s\<lparr>contact_index := 0\<rparr>"]
  by (simp add: normalize_cell_average_keeps)

text \<open>
  C5, on the code. The tick at \<open>frame_index = 7001\<close> clears both flags and sets
  \<open>frame_index\<close> to 0, and the increment that ends every tick then makes it 1: the next
  frame is processed at index 1, not 0. The branch for index 0, which starts the sum
  afresh, is therefore not taken after a recalibration: from a baseline of 9 the first
  frame of bytes 7 leaves 16 in the accumulator, where after power-on it leaves 7.
\<close>

theorem recalibration_restarts_at_index_one:
  "frame_index (fst (skel_poll 0 fetched (dev\<lparr>frame_index := 7001\<rparr>))) = 1
   \<and> \<not> average_computed (fst (skel_poll 0 fetched (dev\<lparr>frame_index := 7001\<rparr>)))
   \<and> \<not> sigma_normalized (fst (skel_poll 0 fetched (dev\<lparr>frame_index := 7001\<rparr>)))
   \<and> average_frame (fst (skel_poll 0 (replicate 4160 7) (fst (skel_poll 0 fetched steady_7001))))
        ! nat (cell_index 10 10) = 16
   \<and> average_frame (fst (skel_poll 0 (replicate 4160 7) skel_probe)) ! nat (cell_index 10 10) = 7"
proof -
  let ?d1 = "fst (skel_poll 0 fetched steady_7001)"
  have c: "(10, 10) \<in> set cells" by (simp add: set_cells)
  have s: "slot (10, 10) = 714" "nat (cell_index 10 10) = 714"
    by (simp_all add: slot_def cell_index_def BLOB_LINE_OFFSET_def)
  have a1: "average_frame ?d1 = replicate 4160 9"
    by (simp add: poll_average_frame normalize_frame_average_keeps steady_7001_def skel_probe_def)
  have f1: "frame_index ?d1 = 1" "\<not> average_computed ?d1"
    by (simp_all add: poll_frame_index poll_average_computed steady_7001_def)
  have "average_frame (normalize_frame (replicate 4160 7) 1 (sigma_normalized ?d1) False
           (normalize_memory ?d1)) ! slot (10, 10)
        = average_frame (normalize_memory ?d1) ! slot (10, 10) + ucast (replicate 4160 (7::u8) ! slot (10, 10))"
    using normalize_average_accumulate [of False 1 "(10, 10)" "normalize_memory ?d1" "replicate 4160 7"
        "sigma_normalized ?d1"] c a1 by simp
  then have second: "average_frame (fst (skel_poll 0 (replicate 4160 7) ?d1)) ! 714 = 16"
    using f1 a1 by (simp add: poll_average_frame s)
  have "average_frame (normalize_frame (replicate 4160 7) 0 False False
           (normalize_memory skel_probe)) ! slot (10, 10)
        = ucast (replicate 4160 (7::u8) ! slot (10, 10))"
    using normalize_average_accumulate [of False 0 "(10, 10)" "normalize_memory skel_probe"
        "replicate 4160 7" False] c by (simp add: skel_probe_def)
  then have third: "average_frame (fst (skel_poll 0 (replicate 4160 7) skel_probe)) ! 714 = 7"
    by (simp add: poll_average_frame s) (simp add: skel_probe_def)
  from second third show ?thesis
    by (simp add: s poll_frame_index poll_average_computed poll_sigma_normalized)
qed

subsection \<open>Completions with an unlink status\<close>

text \<open>
  C3, on the code. Both callbacks store every non-zero status in \<open>errors\<close>, the three
  unlink statuses included: the test on them only decides whether the status is logged.
  The next read then returns \<open>-EIO\<close>.
\<close>

theorem unlink_status_is_recorded:
  "errors (fst (skel_read_bulk_callback (- ENOENT) len dev)) = - ENOENT
   \<and> errors (fst (skel_read_bulk_callback (- ECONNRESET) len dev)) = - ECONNRESET
   \<and> errors (fst (skel_read_bulk_callback (- ESHUTDOWN) len dev)) = - ESHUTDOWN
   \<and> errors (fst (skel_write_bulk_callback (- ENOENT) dev)) = - ENOENT
   \<and> errors (fst (skel_write_bulk_callback (- ECONNRESET) dev)) = - ECONNRESET
   \<and> errors (fst (skel_write_bulk_callback (- ESHUTDOWN) dev)) = - ESHUTDOWN
   \<and> \<not> snd (skel_read_bulk_callback (- ENOENT) len dev)
   \<and> map_option fst (skel_read False 1 0 False [] []
         (fst (skel_read_bulk_callback (- ENOENT) 0 skel_probe))) = Some (- EIO)"
  by (simp add: skel_read_bulk_callback_def skel_write_bulk_callback_def unlink_status_def
      errno_defs skel_read_def skel_read_retry.simps skel_probe_def)

theorem unlink_status_is_recorded_witness:
  "errors (fst (skel_read_bulk_callback (- ENOENT) 0 skel_probe)) = - ENOENT
   \<and> errors skel_probe = 0
   \<and> map_option fst (skel_read False 1 0 False [] []
         (fst (skel_read_bulk_callback (- ENOENT) 0 skel_probe))) = Some (- EIO)"
  using unlink_status_is_recorded [of 0 skel_probe]
  by (simp add: skel_probe_def)

subsection \<open>Stores outside the arrays\<close>

text \<open>The list of faults only grows.\<close>

lemma adjacent_add_faults_mono: "f \<in> set (faults s) \<Longrightarrow> f \<in> set (faults (adjacent_add dst v s))"
  by (simp add: adjacent_add_def)

lemma adjacent_sum_faults_mono: "f \<in> set (faults s) \<Longrightarrow> f \<in> set (faults (adjacent_sum i j n s))"
  by (simp add: adjacent_sum_def adjacent_step_def Let_def adjacent_add_faults_mono)

lemma contact_pass_faults_mono: "f \<in> set (faults s) \<Longrightarrow> f \<in> set (faults (contact_pass t i j s))"
  by (simp add: contact_pass_def contact_update_def contact_store_def Let_def)

lemma steady_score_faults_mono: "f \<in> set (faults s) \<Longrightarrow> f \<in> set (faults (steady_score cur n s))"
  by (simp add: steady_score_def Let_def)

lemma steady_smoothed_faults_mono:
  "f \<in> set (faults s) \<Longrightarrow> f \<in> set (faults (steady_smoothed cur i j s))"
  by (simp add: steady_smoothed_def Let_def adjacent_sum_faults_mono steady_score_faults_mono)

lemma steady_cell_faults_mono: "f \<in> set (faults s) \<Longrightarrow> f \<in> set (faults (steady_cell cur i j s))"
  by (simp add: steady_cell_def Let_def contact_pass_faults_mono steady_smoothed_faults_mono)

lemma normalize_cell_faults_mono:
  "f \<in> set (faults s) \<Longrightarrow> f \<in> set (faults (normalize_cell cur fi sn ac i j s))"
  by (simp add: normalize_cell_def Let_def steady_cell_faults_mono)

lemma adjacent_sum_last_row:
  "faults (adjacent_sum 63 1 (cell_index 63 1) s) =
     faults s @ [Adjacent_store_out_of_bounds (- 64), Adjacent_store_out_of_bounds (- 64),
                 Adjacent_store_out_of_bounds (- 64)]"
  by (simp add: adjacent_sum_def adjacent_step_def adjacent_add_def Let_def cell_index_def
      BLOB_LINE_OFFSET_def)

lemma steady_cell_last_row:
  "Adjacent_store_out_of_bounds (- 64) \<in> set (faults (steady_cell cur 63 1 s))"
  by (simp add: steady_cell_def Let_def steady_smoothed_def adjacent_sum_last_row
      contact_pass_faults_mono)

text \<open>
  C9, on the code. For the cells of row 63 the remainder wraps the index to the
  column, so \<open>index - 65\<close> is negative: at row 63, column 1 the index is 1 and the three
  stores of the neighbourhood sum go to slot -64, before the start of
  \<^verbatim>\<open>score_frame_adjacent\<close>. Every steady-state pass over a frame performs them.
\<close>

theorem adjacent_store_before_buffer:
  "cell_index 63 1 - 65 = - 64
   \<and> faults (adjacent_sum 63 1 (cell_index 63 1) s) =
       faults s @ [Adjacent_store_out_of_bounds (- 64), Adjacent_store_out_of_bounds (- 64),
                   Adjacent_store_out_of_bounds (- 64)]
   \<and> Adjacent_store_out_of_bounds (- 64) \<in> set (faults (normalize_frame cur fi True True s'))"
proof -
  have "(63, 1) \<in> set cells" by (simp add: set_cells)
  then obtain pre post where sp: "cells = pre @ (63, 1) # post" by (auto simp: in_set_conv_decomp)
  let ?step = "\<lambda>c. normalize_cell cur fi True True (fst c) (snd c)"
  have keep: "Adjacent_store_out_of_bounds (- 64) \<in> set (faults (fold ?step cs t))"
    if "Adjacent_store_out_of_bounds (- 64) \<in> set (faults t)" for cs and t :: normalize_state
    using that by (induction cs arbitrary: t) (simp_all add: normalize_cell_faults_mono)
  have "Adjacent_store_out_of_bounds (- 64)
          \<in> set (faults (?step (63, 1) (fold ?step pre (s'\<lparr>contact_index := 0\<rparr>))))"
    by (simp add: normalize_cell_def Let_def steady_cell_last_row)
  then have "Adjacent_store_out_of_bounds (- 64)
          \<in> set (faults (fold ?step post (?step (63, 1) (fold ?step pre (s'\<lparr>contact_index := 0\<rparr>)))))"
    by (rule keep)
  then have "Adjacent_store_out_of_bounds (- 64) \<in> set (faults (normalize_frame cur fi True True s'))"
    by (simp add: normalize_cells sp)
  then show ?thesis
    by (simp add: adjacent_sum_last_row) (simp add: cell_index_def BLOB_LINE_OFFSET_def)
qed

text \<open>
  C2, on the code. \<^verbatim>\<open>contact_index\<close> is incremented before the slot is named, so
  new contacts go to the slots 1, 2, ... and the one opened at \<^verbatim>\<open>contact_index = 9\<close>
  goes to slot 10, past the end of \<^verbatim>\<open>touch_contacts[MAX_CONTACTS]\<close>; slot 0 is never
  filled. Ten triggered cells of row 10, six columns apart, starting from the contacts of
  \<^verbatim>\<open>skel_probe\<close>:
\<close>

theorem tenth_contact_past_the_array:
  "contact_index (fold (contact_pass True 10) [5, 11, 17, 23, 29, 35, 41, 47, 53, 59]
                    (normalize_memory skel_probe)) = 10
   \<and> faults (fold (contact_pass True 10) [5, 11, 17, 23, 29, 35, 41, 47, 53, 59]
               (normalize_memory skel_probe)) = [Contact_store_out_of_bounds 10]
   \<and> touch_contacts (fold (contact_pass True 10) [5, 11, 17, 23, 29, 35, 41, 47, 53, 59]
                        (normalize_memory skel_probe)) ! 0 = zero_contact
   \<and> touch_contacts (fold (contact_pass True 10) [5, 11, 17, 23, 29, 35, 41, 47, 53, 59]
                        (normalize_memory skel_probe)) ! 1 = \<lparr>x = 5, y = 10, h = 1, w = 1, processed = False\<rparr>"
  by (simp add: contact_pass_def contact_update_def contact_store_def contact_match.simps
      contact_hit_def normalize_memory_def skel_probe_def zero_contact_def MAX_CONTACTS_def Let_def)

subsection \<open>The score at the threshold test\<close>

lemma adjacent_add_length [simp]:
  "length (score_frame_adjacent (adjacent_add dst v s)) = length (score_frame_adjacent s)"
  by (simp add: adjacent_add_def)

lemma adjacent_add_other:
  "dst \<noteq> int n \<Longrightarrow> score_frame_adjacent (adjacent_add dst v s) ! n = score_frame_adjacent s ! n"
  by (auto simp add: adjacent_add_def)

lemma adjacent_step_length [simp]:
  "length (score_frame_adjacent (adjacent_step i j index k l s)) = length (score_frame_adjacent s)"
  by (simp add: adjacent_step_def Let_def)

lemma adjacent_step_own_slot [simp]:
  "0 \<le> index \<Longrightarrow>
   score_frame_adjacent (adjacent_step i j index k l s) ! nat index = score_frame_adjacent s ! nat index"
  by (simp add: adjacent_step_def Let_def adjacent_add_other)

lemma adjacent_sum_length [simp]:
  "length (score_frame_adjacent (adjacent_sum i j index s)) = length (score_frame_adjacent s)"
  by (simp add: adjacent_sum_def)

lemma adjacent_sum_own_slot:
  "0 \<le> index \<Longrightarrow>
   score_frame_adjacent (adjacent_sum i j index s) ! nat index = score_frame_adjacent s ! nat index"
  by (simp add: adjacent_sum_def)

lemma steady_smoothed_adjacent_length [simp]:
  "length (score_frame_adjacent (steady_smoothed cur i j s)) = length (score_frame_adjacent s)"
  by (simp add: steady_smoothed_def smooth_def Let_def)

lemma steady_cell_adjacent:
  "score_frame_adjacent (steady_cell cur i j s) = score_frame_adjacent (steady_smoothed cur i j s)"
  by (simp add: steady_cell_def Let_def)

lemma steady_cell_last:
  "score_last_frame_adjacent (steady_cell cur i j s) =
     memcpy_u16 (score_last_frame_adjacent s) (score_frame_adjacent (steady_smoothed cur i j s)) 4160"
  by (simp add: steady_cell_def Let_def)

lemma score_at_threshold_eq:
  assumes "0 \<le> i" "i < 64" "0 \<le> j" "j < 64" "4096 \<le> length (score_frame_adjacent s)"
  shows "score_at_threshold cur i j s =
           word_of_nat (unat (score_last_frame_adjacent s ! nat (cell_index i j)) div 2)"
proof -
  have r: "0 \<le> cell_index i j" "nat (cell_index i j) < length (score_frame_adjacent s)"
    using assms by (simp_all add: cell_index_def)
  then show ?thesis
    by (simp add: score_at_threshold_def steady_smoothed_def smooth_def Let_def adjacent_sum_own_slot)
qed

lemma adjacent_add_same:
  "0 \<le> dst \<Longrightarrow> nat dst < length (score_frame_adjacent s) \<Longrightarrow>
   score_frame_adjacent (adjacent_add dst v s) ! nat dst = score_frame_adjacent s ! nat dst + v"
  by (simp add: adjacent_add_def)

lemma adjacent_step_dest:
  "0 \<le> index - 65 \<Longrightarrow> nat (index - 65) < length (score_frame_adjacent s) \<Longrightarrow>
   score_frame_adjacent (adjacent_step i j index k l s) ! nat (index - 65) =
     score_frame_adjacent s ! nat (index - 65) +
     (if l + j > 0 \<and> k + i > 0
      then score_frame s ! nat ((l + j) + (k + i) * 64 + 64 + 64 * BLOB_LINE_OFFSET) else 0)"
  by (simp add: adjacent_step_def Let_def adjacent_add_same)

lemma adjacent_sum_dest:
  "0 \<le> index - 65 \<Longrightarrow> nat (index - 65) < length (score_frame_adjacent s) \<Longrightarrow>
   score_frame_adjacent (adjacent_sum i j index s) ! nat (index - 65) =
     score_frame_adjacent s ! nat (index - 65) + neighbourhood_sum (score_frame s) i j"
  by (simp add: adjacent_sum_def neighbourhood_sum_def adjacent_step_dest add.assoc)

lemma steady_smoothed_dest:
  assumes "0 \<le> cell_index i j - 65" "nat (cell_index i j) < length (score_frame_adjacent s)"
  shows "score_frame_adjacent (steady_smoothed cur i j s) ! nat (cell_index i j - 65) =
     score_frame_adjacent s ! nat (cell_index i j - 65)
     + neighbourhood_sum (score_frame (steady_score cur (cell_index i j) s)) i j"
proof -
  have ne: "nat (cell_index i j) \<noteq> nat (cell_index i j - 65)" using assms(1) by simp
  have lt: "nat (cell_index i j - 65) < length (score_frame_adjacent s)" using assms by simp
  show ?thesis
    using ne lt assms(1)
    by (simp add: steady_smoothed_def smooth_def Let_def adjacent_sum_dest)
qed

text \<open>
  C4, on the code. When the threshold test of a cell reads its smoothed score, the
  cell's slot of \<^verbatim>\<open>score_frame_adjacent\<close> was just set to 0 and the neighbourhood sum
  of the current frame was added to the slot of the cell one row up and one column to
  the left (\<open>index - 65\<close>): the score tested is half of what
  \<^verbatim>\<open>score_last_frame_adjacent\<close> holds for the cell, whatever the current frame is. The
  copy into \<^verbatim>\<open>score_last_frame_adjacent\<close> is made after every cell, not once per
  frame.
\<close>

theorem threshold_score_ignores_current_frame:
  assumes "0 \<le> i" and "i < 64" and "0 \<le> j" and "j < 64"
    and "length (score_frame_adjacent s) = 4160"
    and "length (score_last_frame_adjacent s) = 4160"
  shows "score_at_threshold current_frame i j s =
           word_of_nat (unat (score_last_frame_adjacent s ! nat (cell_index i j)) div 2)
       \<and> score_last_frame_adjacent (steady_cell current_frame i j s)
           = score_frame_adjacent (steady_cell current_frame i j s)
       \<and> (0 \<le> cell_index i j - 65 \<longrightarrow>
            score_frame_adjacent (steady_cell current_frame i j s) ! nat (cell_index i j - 65)
              = score_frame_adjacent s ! nat (cell_index i j - 65)
                + neighbourhood_sum
                    (score_frame (steady_score current_frame (cell_index i j) s)) i j)"
proof -
  have r: "nat (cell_index i j) < length (score_frame_adjacent s)"
    using assms by (simp add: cell_index_def)
  have "score_at_threshold current_frame i j s =
           word_of_nat (unat (score_last_frame_adjacent s ! nat (cell_index i j)) div 2)"
    using assms by (intro score_at_threshold_eq) simp_all
  moreover have "score_last_frame_adjacent (steady_cell current_frame i j s)
           = score_frame_adjacent (steady_cell current_frame i j s)"
    using assms(5,6) by (simp add: steady_cell_adjacent steady_cell_last memcpy_u16_def)
  moreover have "score_frame_adjacent (steady_cell current_frame i j s) ! nat (cell_index i j - 65)
              = score_frame_adjacent s ! nat (cell_index i j - 65)
                + neighbourhood_sum
                    (score_frame (steady_score current_frame (cell_index i j) s)) i j"
    if "0 \<le> cell_index i j - 65"
    unfolding steady_cell_adjacent using that r by (rule steady_smoothed_dest)
  ultimately show ?thesis by blast
qed

theorem threshold_score_ignores_current_frame_witness:
  "score_at_threshold (replicate 4160 100) 10 10 touched_state = 0
   \<and> neighbourhood_sum
        (score_frame (steady_score (replicate 4160 100) (cell_index 10 10) touched_state)) 10 10 = 900
   \<and> score_frame_adjacent (steady_cell (replicate 4160 100) 10 10 touched_state)
        ! nat (cell_index 10 10 - 65) = 900
   \<and> score_last_frame_adjacent (steady_cell (replicate 4160 100) 10 10 touched_state)
        ! nat (cell_index 10 10 - 65) = 900"
proof -
  have n: "neighbourhood_sum
        (score_frame (steady_score (replicate 4160 100) (cell_index 10 10) touched_state)) 10 10 = 900"
    by (simp add: neighbourhood_sum_def steady_score_def Let_def touched_state_def cell_index_def
        BLOB_LINE_OFFSET_def nth_list_update)
  from threshold_score_ignores_current_frame [of 10 10 touched_state "replicate 4160 100"] n
  show ?thesis by (simp add: touched_state_def cell_index_def BLOB_LINE_OFFSET_def)
qed

subsection \<open>The frame after calibration, and new contacts\<close>

lemma normalize_cell_calibrating_contacts:
  "\<not> (sn \<and> ac) \<Longrightarrow> touch_contacts (normalize_cell cur fi sn ac i j s) = touch_contacts s"
  "\<not> (sn \<and> ac) \<Longrightarrow> contact_index (normalize_cell cur fi sn ac i j s) = contact_index s"
  by (auto simp add: normalize_cell_def Let_def)

lemma normalize_frame_calibrating_contacts:
  assumes "\<not> (sn \<and> ac)"
  shows "touch_contacts (normalize_frame cur fi sn ac s) = touch_contacts s"
    and "contact_index (normalize_frame cur fi sn ac s) = 0"
  unfolding normalize_cells
  using fold_keeps [of touch_contacts "\<lambda>c. normalize_cell cur fi sn ac (fst c) (snd c)" cells
          "s\<lparr>contact_index := 0\<rparr>"]
        fold_keeps [of contact_index "\<lambda>c. normalize_cell cur fi sn ac (fst c) (snd c)" cells
          "s\<lparr>contact_index := 0\<rparr>"] assms
  by (simp_all add: normalize_cell_calibrating_contacts)

lemma poll_touch_contacts:
  "0 \<le> r \<Longrightarrow> touch_contacts (fst (skel_poll r f d)) =
     touch_contacts (normalize_frame f (frame_index d) (sigma_normalized d) (average_computed d)
        (normalize_memory d))"
  by (simp add: skel_poll_def Let_def normalize_memory_def)

lemma calibration_run:
  "\<not> sigma_normalized d \<Longrightarrow> 0 \<le> frame_index d \<Longrightarrow> frame_index d + int (length fs) \<le> 511 \<Longrightarrow>
   touch_contacts (fst (poll_run (map (Pair 0) fs) d)) = touch_contacts d
   \<and> frame_index (fst (poll_run (map (Pair 0) fs) d)) = frame_index d + int (length fs)
   \<and> sigma_normalized (fst (poll_run (map (Pair 0) fs) d))
       = (fs \<noteq> [] \<and> frame_index d + int (length fs) = 511)
   \<and> average_computed (fst (poll_run (map (Pair 0) fs) d))
       = (average_computed d \<or> (frame_index d \<le> 255 \<and> 255 < frame_index d + int (length fs)))"
proof (induction fs arbitrary: d)
  case Nil
  then show ?case by auto
next
  case (Cons f fs)
  let ?d1 = "fst (skel_poll 0 f d)"
  from Cons.prems have k: "frame_index d \<le> 510" by simp
  have tc: "touch_contacts ?d1 = touch_contacts d"
    using Cons.prems(1)
    by (simp add: poll_touch_contacts normalize_frame_calibrating_contacts normalize_memory_def)
  have fi: "frame_index ?d1 = frame_index d + 1" using k by (simp add: poll_frame_index)
  have sn: "sigma_normalized ?d1 = (frame_index d = 510)"
    using k Cons.prems(1) by (simp add: poll_sigma_normalized)
  have ac: "average_computed ?d1 = (average_computed d \<or> frame_index d = 255)"
    using k by (simp add: poll_average_computed)
  show ?case
  proof (cases "fs = []")
    case True
    with tc fi sn ac Cons.prems show ?thesis
      by (simp add: poll_run_Cons del: poll_run.simps) auto
  next
    case False
    with Cons.prems(3) have "frame_index d < 510" by (cases fs) simp_all
    with sn have nsn: "\<not> sigma_normalized ?d1" by simp
    from Cons.IH [OF nsn] fi Cons.prems
    have ih: "touch_contacts (fst (poll_run (map (Pair 0) fs) ?d1)) = touch_contacts ?d1
      \<and> frame_index (fst (poll_run (map (Pair 0) fs) ?d1)) = frame_index ?d1 + int (length fs)
      \<and> sigma_normalized (fst (poll_run (map (Pair 0) fs) ?d1))
          = (fs \<noteq> [] \<and> frame_index ?d1 + int (length fs) = 511)
      \<and> average_computed (fst (poll_run (map (Pair 0) fs) ?d1))
          = (average_computed ?d1 \<or> (frame_index ?d1 \<le> 255 \<and> 255 < frame_index ?d1 + int (length fs)))"
      by simp
    with tc fi ac False show ?thesis
      by (simp add: poll_run_Cons del: poll_run.simps) auto
  qed
qed

text \<open>
  After 510 all-zero frames from power-on, a frame with the byte of cell (10, 10) at 255
  is processed at \<open>frame_index = 510\<close>, the variance finalize, and leaves the contacts
  as \<^verbatim>\<open>skel_probe\<close> left them.
\<close>

lemma calibration_scenario_records_nothing:
  "touch_contacts (fst (poll_run (map (Pair 0)
         (replicate 510 (replicate 4160 0) @ [(replicate 4160 0)[nat (cell_index 10 10) := 255]]))
         skel_probe)) = replicate 10 zero_contact"
proof -
  have p: "\<not> sigma_normalized skel_probe" "frame_index skel_probe = 0"
    by (simp_all add: skel_probe_def)
  from calibration_run [of skel_probe
      "replicate 510 (replicate 4160 0) @ [(replicate 4160 0)[nat (cell_index 10 10) := 255]]"] p
  show ?thesis by (simp add: skel_probe_def del: poll_run.simps)
qed

text \<open>
  C1, on the code. \<^verbatim>\<open>contact_index\<close> is incremented before the slot is named, so
  the record of a new contact goes to slot \<open>contact_index + 1\<close>, while the search and
  the report read the slots \<open>0 .. contact_index - 1\<close>. From the contacts of
  \<^verbatim>\<open>skel_probe\<close>:
  \<^item> one triggered cell at row 10, column 10 leaves \<^verbatim>\<open>contact_index = 1\<close> with the
    record in slot 1; the one slot that counts as the list, slot 0, is still empty;
  \<^item> its triggered neighbour at column 11 is not matched against that record (slot 1 is
    not searched yet) and opens a second contact;
  \<^item> after a contact at row 0, column 30, the triggered cell (2, 2), which is in no
    contact of the frame, matches the empty slot 0 and grows it to 3 by 3: no record is
    added for it;
  \<^item> at \<^verbatim>\<open>contact_index = 9\<close>, fewer than \<^verbatim>\<open>MAX_CONTACTS\<close>, an unmatched
    triggered cell adds no record to the array.
\<close>

theorem new_contact_misses_the_list:
  "contact_index (contact_pass True 10 10 (normalize_memory skel_probe)) = 1
   \<and> take 1 (touch_contacts (contact_pass True 10 10 (normalize_memory skel_probe)))
       = [zero_contact]
   \<and> touch_contacts (contact_pass True 10 10 (normalize_memory skel_probe)) ! 1
       = \<lparr>x = 10, y = 10, h = 1, w = 1, processed = False\<rparr>
   \<and> contact_index (fold (contact_pass True 10) [10, 11] (normalize_memory skel_probe)) = 2
   \<and> touch_contacts (fold (contact_pass True 10) [10, 11] (normalize_memory skel_probe)) ! 1
       = \<lparr>x = 10, y = 10, h = 1, w = 1, processed = False\<rparr>
   \<and> touch_contacts (fold (contact_pass True 10) [10, 11] (normalize_memory skel_probe)) ! 2
       = \<lparr>x = 11, y = 10, h = 1, w = 1, processed = False\<rparr>
   \<and> contact_index (contact_pass True 2 2 (contact_pass True 0 30 (normalize_memory skel_probe))) = 1
   \<and> touch_contacts (contact_pass True 2 2 (contact_pass True 0 30 (normalize_memory skel_probe))) ! 0
       = \<lparr>x = 0, y = 0, h = 3, w = 3, processed = False\<rparr>
   \<and> drop 1 (touch_contacts
         (contact_pass True 2 2 (contact_pass True 0 30 (normalize_memory skel_probe))))
       = drop 1 (touch_contacts (contact_pass True 0 30 (normalize_memory skel_probe)))
   \<and> contact_index (fold (contact_pass True 10) [5, 11, 17, 23, 29, 35, 41, 47, 53]
                        (normalize_memory skel_probe)) = 9
   \<and> touch_contacts (contact_pass True 10 59
          (fold (contact_pass True 10) [5, 11, 17, 23, 29, 35, 41, 47, 53]
             (normalize_memory skel_probe)))
       = touch_contacts (fold (contact_pass True 10) [5, 11, 17, 23, 29, 35, 41, 47, 53]
                           (normalize_memory skel_probe))"
  by (simp add: contact_pass_def contact_update_def contact_store_def contact_match.simps
      contact_hit_def normalize_memory_def skel_probe_def zero_contact_def MAX_CONTACTS_def Let_def)

subsection \<open>The pending error\<close>

lemma complete_ok_errors:
  "completion_status c = 0 \<Longrightarrow> errors (complete c dev) = errors dev"
  by (cases c) (simp_all add: skel_read_bulk_callback_def skel_write_bulk_callback_def)

lemma draw_down_ok_errors:
  "\<forall>c\<in>set cs. completion_status c = 0 \<Longrightarrow> errors (skel_draw_down cs dev) = errors dev"
  unfolding skel_draw_down_def
  by (induction cs arbitrary: dev) (simp_all add: complete_ok_errors)

text \<open>
  C8, as amended. A pending (negative) error is handed to the first read, write or
  flush that reaches the check of \<^verbatim>\<open>errors\<close>: a read with a non-zero count on a bound
  in-endpoint that gets the lock, finds the interface present and either no read
  outstanding or, blocking, the outstanding read completed with status 0; a write with a
  non-zero count that gets a slot of the semaphore; a flush during whose draw-down no
  transfer completes with a non-zero status. That call returns \<open>-EPIPE\<close> for a
  recorded \<open>-EPIPE\<close> and \<open>-EIO\<close> for any other error, and leaves \<^verbatim>\<open>errors\<close> at 0,
  so that a flush after it returns 0. A call that is turned away before the check leaves
  the device as it was, the error included, and returns what the guard says: a read
  with count 0 or without in-endpoint returns 0, a read whose lock was interrupted the
  lock's result, a read on an absent interface \<open>-ENODEV\<close>, a non-blocking read with a
  read outstanding \<open>-EAGAIN\<close>, a blocking one that a signal interrupts
  \<open>-ERESTARTSYS\<close>; a write with count 0 returns 0 and a write that gets no slot
  \<open>-EAGAIN\<close> (non-blocking) or \<open>-ERESTARTSYS\<close>.
\<close>

theorem pending_error_reported_once:
  assumes "errors dev < 0"
  shows "(bulk_in_urb_bound dev \<and> count \<noteq> 0 \<and> lock_rv = 0 \<and> interface_bound dev
            \<and> \<not> ongoing_read dev \<longrightarrow>
          skel_read nonblock count lock_rv copy_fault evs subs dev
            = Some (if errors dev = - EPIPE then - EPIPE else - EIO, dev\<lparr>errors := 0\<rparr>))
       \<and> (bulk_in_urb_bound dev \<and> count \<noteq> 0 \<and> lock_rv = 0 \<and> interface_bound dev
            \<and> ongoing_read dev \<and> \<not> nonblock \<longrightarrow>
          skel_read nonblock count lock_rv copy_fault (Completed 0 len # evs) subs dev
            = Some (if errors dev = - EPIPE then - EPIPE else - EIO,
                    dev\<lparr>bulk_in_filled := len, ongoing_read := False, errors := 0\<rparr>))
       \<and> (count \<noteq> 0 \<and> sem_acquired env \<longrightarrow>
          skel_write nonblock count env dev
            = (if errors dev = - EPIPE then - EPIPE else - EIO, dev\<lparr>errors := 0\<rparr>))
       \<and> ((\<forall>c\<in>set cs. completion_status c = 0) \<longrightarrow>
          skel_flush cs (Some dev)
            = (if errors dev = - EPIPE then - EPIPE else - EIO,
               Some ((skel_draw_down cs dev)\<lparr>errors := 0\<rparr>))
          \<and> fst (skel_flush cs (Some ((skel_draw_down cs dev)\<lparr>errors := 0\<rparr>))) = 0)
       \<and> (\<not> bulk_in_urb_bound dev \<or> count = 0 \<longrightarrow>
          skel_read nonblock count lock_rv copy_fault evs subs dev = Some (0, dev))
       \<and> (bulk_in_urb_bound dev \<and> count \<noteq> 0 \<and> lock_rv < 0 \<longrightarrow>
          skel_read nonblock count lock_rv copy_fault evs subs dev = Some (lock_rv, dev))
       \<and> (bulk_in_urb_bound dev \<and> count \<noteq> 0 \<and> 0 \<le> lock_rv \<and> \<not> interface_bound dev \<longrightarrow>
          skel_read nonblock count lock_rv copy_fault evs subs dev = Some (- ENODEV, dev))
       \<and> (bulk_in_urb_bound dev \<and> count \<noteq> 0 \<and> 0 \<le> lock_rv \<and> interface_bound dev
            \<and> ongoing_read dev \<and> nonblock \<longrightarrow>
          skel_read nonblock count lock_rv copy_fault evs subs dev = Some (- EAGAIN, dev))
       \<and> (bulk_in_urb_bound dev \<and> count \<noteq> 0 \<and> 0 \<le> lock_rv \<and> interface_bound dev
            \<and> ongoing_read dev \<and> \<not> nonblock \<longrightarrow>
          skel_read nonblock count lock_rv copy_fault (Interrupted # evs) subs dev
            = Some (- ERESTARTSYS, dev))
       \<and> skel_write nonblock 0 env dev = (0, dev)
       \<and> (count \<noteq> 0 \<and> \<not> sem_acquired env \<longrightarrow>
          skel_write nonblock count env dev
            = (if nonblock then - EAGAIN else - ERESTARTSYS, dev))"
proof -
  have flush: "skel_flush cs (Some dev)
            = (if errors dev = - EPIPE then - EPIPE else - EIO,
               Some ((skel_draw_down cs dev)\<lparr>errors := 0\<rparr>))
          \<and> fst (skel_flush cs (Some ((skel_draw_down cs dev)\<lparr>errors := 0\<rparr>))) = 0"
    if ok: "\<forall>c\<in>set cs. completion_status c = 0"
  proof -
    have "errors (skel_draw_down cs dev) = errors dev"
      and "errors (skel_draw_down cs ((skel_draw_down cs dev)\<lparr>errors := 0\<rparr>)) = 0"
      using ok by (simp_all add: draw_down_ok_errors)
    with assms show ?thesis by (simp add: Let_def)
  qed
  note rd = skel_read_def skel_read_retry.simps skel_read_bulk_callback_def Let_def errno_defs
  have r1: "bulk_in_urb_bound dev \<and> count \<noteq> 0 \<and> lock_rv = 0 \<and> interface_bound dev
            \<and> \<not> ongoing_read dev \<longrightarrow>
          skel_read nonblock count lock_rv copy_fault evs subs dev
            = Some (if errors dev = - EPIPE then - EPIPE else - EIO, dev\<lparr>errors := 0\<rparr>)"
    using assms by (simp add: rd)
  have r2: "bulk_in_urb_bound dev \<and> count \<noteq> 0 \<and> lock_rv = 0 \<and> interface_bound dev
            \<and> ongoing_read dev \<and> \<not> nonblock \<longrightarrow>
          skel_read nonblock count lock_rv copy_fault (Completed 0 len # evs) subs dev
            = Some (if errors dev = - EPIPE then - EPIPE else - EIO,
                    dev\<lparr>bulk_in_filled := len, ongoing_read := False, errors := 0\<rparr>)"
    using assms by (simp add: rd)
  have r3: "\<not> bulk_in_urb_bound dev \<or> count = 0 \<longrightarrow>
          skel_read nonblock count lock_rv copy_fault evs subs dev = Some (0, dev)"
    by (simp add: skel_read_def)
  have r4: "bulk_in_urb_bound dev \<and> count \<noteq> 0 \<and> lock_rv < 0 \<longrightarrow>
          skel_read nonblock count lock_rv copy_fault evs subs dev = Some (lock_rv, dev)"
    by (simp add: skel_read_def)
  have r5: "bulk_in_urb_bound dev \<and> count \<noteq> 0 \<and> 0 \<le> lock_rv \<and> \<not> interface_bound dev \<longrightarrow>
          skel_read nonblock count lock_rv copy_fault evs subs dev = Some (- ENODEV, dev)"
    by (simp add: skel_read_def)
  have r6: "bulk_in_urb_bound dev \<and> count \<noteq> 0 \<and> 0 \<le> lock_rv \<and> interface_bound dev
            \<and> ongoing_read dev \<and> nonblock \<longrightarrow>
          skel_read nonblock count lock_rv copy_fault evs subs dev = Some (- EAGAIN, dev)"
    by (simp add: skel_read_def skel_read_retry.simps)
  have r7: "bulk_in_urb_bound dev \<and> count \<noteq> 0 \<and> 0 \<le> lock_rv \<and> interface_bound dev
            \<and> ongoing_read dev \<and> \<not> nonblock \<longrightarrow>
          skel_read nonblock count lock_rv copy_fault (Interrupted # evs) subs dev
            = Some (- ERESTARTSYS, dev)"
    by (simp add: skel_read_def skel_read_retry.simps)
  have w1: "count \<noteq> 0 \<and> sem_acquired env \<longrightarrow>
          skel_write nonblock count env dev
            = (if errors dev = - EPIPE then - EPIPE else - EIO, dev\<lparr>errors := 0\<rparr>)"
    using assms by (simp add: skel_write_def Let_def errno_defs)
  have w2: "skel_write nonblock 0 env dev = (0, dev)"
    by (simp add: skel_write_def)
  have w3: "count \<noteq> 0 \<and> \<not> sem_acquired env \<longrightarrow>
          skel_write nonblock count env dev
            = (if nonblock then - EAGAIN else - ERESTARTSYS, dev)"
    by (simp add: skel_write_def)
  from flush r1 r2 r3 r4 r5 r6 r7 w1 w2 w3 show ?thesis by blast
qed

theorem pending_error_reported_once_witness:
  "skel_read False 1 0 False [] [] (skel_probe\<lparr>errors := - EPIPE\<rparr>)
     = Some (- EPIPE, skel_probe\<lparr>errors := 0\<rparr>)
   \<and> skel_write False 1
        \<lparr>sem_acquired = True, urb_allocated = True, buf_allocated = True, copy_ok = True,
         submit_rv = 0\<rparr> (skel_probe\<lparr>errors := - 71\<rparr>)
     = (- EIO, skel_probe\<lparr>errors := 0\<rparr>)
   \<and> skel_flush [Write_completion 0] (Some (skel_probe\<lparr>errors := - EPIPE\<rparr>))
     = (- EPIPE, Some (skel_probe\<lparr>errors := 0\<rparr>))
   \<and> skel_read False 0 0 False [] [] (skel_probe\<lparr>errors := - 71\<rparr>)
     = Some (0, skel_probe\<lparr>errors := - 71\<rparr>)
   \<and> skel_write True 1
        \<lparr>sem_acquired = False, urb_allocated = True, buf_allocated = True, copy_ok = True,
         submit_rv = 0\<rparr> (skel_probe\<lparr>errors := - 71\<rparr>)
     = (- EAGAIN, skel_probe\<lparr>errors := - 71\<rparr>)"
  using pending_error_reported_once [where dev = "skel_probe\<lparr>errors := - EPIPE\<rparr>"
          and count = 1 and lock_rv = 0 and nonblock = False and copy_fault = False
          and evs = "[]" and subs = "[]" and cs = "[Write_completion 0]"
          and env = "\<lparr>sem_acquired = True, urb_allocated = True, buf_allocated = True,
                       copy_ok = True, submit_rv = 0\<rparr>"]
        pending_error_reported_once [where dev = "skel_probe\<lparr>errors := - 71\<rparr>"
          and count = 1 and lock_rv = 0 and nonblock = False and copy_fault = False
          and evs = "[]" and subs = "[]" and cs = "[]"
          and env = "\<lparr>sem_acquired = True, urb_allocated = True, buf_allocated = True,
                       copy_ok = True, submit_rv = 0\<rparr>"]
        pending_error_reported_once [where dev = "skel_probe\<lparr>errors := - 71\<rparr>"
          and count = 0 and lock_rv = 0 and nonblock = False and copy_fault = False
          and evs = "[]" and subs = "[]" and cs = "[]"
          and env = "\<lparr>sem_acquired = True, urb_allocated = True, buf_allocated = True,
                       copy_ok = True, submit_rv = 0\<rparr>"]
        pending_error_reported_once [where dev = "skel_probe\<lparr>errors := - 71\<rparr>"
          and count = 1 and lock_rv = 0 and nonblock = True and copy_fault = False
          and evs = "[]" and subs = "[]" and cs = "[]"
          and env = "\<lparr>sem_acquired = False, urb_allocated = True, buf_allocated = True,
                       copy_ok = True, submit_rv = 0\<rparr>"]
  by (simp add: skel_probe_def errno_defs skel_draw_down_def skel_write_bulk_callback_def)

text \<open>
  C8 as stated fails for the calls that the guards turn away first: a read of 0 bytes
  returns 0, and a non-blocking write that finds no free slot returns \<open>-EAGAIN\<close>; the
  recorded \<open>-EPIPE\<close> stays.
\<close>

theorem pending_error_counterexample:
  "skel_read False 0 0 False [] [] (skel_probe\<lparr>errors := - EPIPE\<rparr>)
     = Some (0, skel_probe\<lparr>errors := - EPIPE\<rparr>)
   \<and> skel_write True 1
        \<lparr>sem_acquired = False, urb_allocated = True, buf_allocated = True, copy_ok = True,
         submit_rv = 0\<rparr> (skel_probe\<lparr>errors := - EPIPE\<rparr>)
     = (- EAGAIN, skel_probe\<lparr>errors := - EPIPE\<rparr>)
   \<and> errors (skel_probe\<lparr>errors := - EPIPE\<rparr>) = - 32"
  by (simp add: skel_read_def skel_write_def errno_defs)

end
